theory Spec2Isabelle
  imports Main "HOL-Library.Word"
begin

section \<open>Assertions\<close>

datatype error = AssertionFailed | InvalidPointer

text \<open>
  Modelled from the spec: the \<^verbatim>\<open>ASSERT\<close> macro, whose header is not among the
  sources. The spec describes an assertion as a check of a precondition that is fatal when
  the condition is false: execution stops there, and nothing after the check runs.
\<close>

definition ASSERT :: "bool \<Rightarrow> error + unit" where
  "ASSERT c = (if c then Inr () else Inl AssertionFailed)"

section \<open>The document lock (\<^verbatim>\<open>app/document.cpp\<close>)\<close>

text \<open>
  Modelled from the spec: the two fields of \<^verbatim>\<open>Document\<close> that the locking functions
  read and write are declared in \<^verbatim>\<open>app/document.h\<close>, which is not among the sources.
  The spec gives the state of the gate as a flag and an unsigned count of readers.
  \<^verbatim>\<open>m_read_locks\<close> is only ever incremented, compared with 0 and 1, set to 0 or 1, and
  decremented when it is positive: it is a natural number here, without an upper bound.
  The mutex taken at the start of every function makes each call one atomic transition,
  which is what a function from state to state is.
\<close>

record gate =
  m_write_lock :: bool
  m_read_locks :: nat

datatype LockType = ReadLock | WriteLock

text \<open>The constructor's initialisers: \<^verbatim>\<open>m_write_lock(false), m_read_locks(0)\<close>.\<close>

definition fresh :: gate where
  "fresh = \<lparr>m_write_lock = False, m_read_locks = 0\<rparr>"

text \<open>\<^verbatim>\<open>bool Document::lock(LockType)\<close>: the returned flag and the state after the call.\<close>

fun lock :: "LockType \<Rightarrow> 'a gate_scheme \<Rightarrow> bool \<times> 'a gate_scheme" where
  "lock ReadLock g =
     (if \<not> m_write_lock g then (True, g\<lparr>m_read_locks := m_read_locks g + 1\<rparr>)
      else (False, g))"
| "lock WriteLock g =
     (if m_read_locks g = 0 \<and> \<not> m_write_lock g then (True, g\<lparr>m_write_lock := True\<rparr>)
      else (False, g))"

text \<open>\<^verbatim>\<open>bool Document::lockToWrite()\<close>.\<close>

definition lockToWrite :: "'a gate_scheme \<Rightarrow> error + bool \<times> 'a gate_scheme" where
  "lockToWrite g =
     (if m_read_locks g = 1 then
        (case ASSERT (\<not> m_write_lock g) of
           Inl e \<Rightarrow> Inl e
         | Inr _ \<Rightarrow> Inr (True, g\<lparr>m_read_locks := 0, m_write_lock := True\<rparr>))
      else Inr (False, g))"

text \<open>\<^verbatim>\<open>void Document::unlockToRead()\<close>.\<close>

definition unlockToRead :: "'a gate_scheme \<Rightarrow> error + 'a gate_scheme" where
  "unlockToRead g =
     (case ASSERT (m_read_locks g = 0) of
        Inl e \<Rightarrow> Inl e
      | Inr _ \<Rightarrow>
          (case ASSERT (m_write_lock g) of
             Inl e \<Rightarrow> Inl e
           | Inr _ \<Rightarrow> Inr (g\<lparr>m_write_lock := False, m_read_locks := 1\<rparr>)))"

text \<open>\<^verbatim>\<open>void Document::unlock()\<close>.\<close>

definition unlock :: "'a gate_scheme \<Rightarrow> error + 'a gate_scheme" where
  "unlock g =
     (if m_write_lock g then Inr (g\<lparr>m_write_lock := False\<rparr>)
      else if m_read_locks g > 0 then Inr (g\<lparr>m_read_locks := m_read_locks g - 1\<rparr>)
      else (case ASSERT False of Inl e \<Rightarrow> Inl e | Inr _ \<Rightarrow> Inr g))"

text \<open>
  The invariant of the gate: a writer excludes every reader.
\<close>

definition gate_inv :: "'a gate_scheme \<Rightarrow> bool" where
  "gate_inv g = (m_write_lock g \<longrightarrow> m_read_locks g = 0)"

text \<open>
  A caller's view of the five entry points, and a run of calls. A call whose assertion
  fails stops the program: the run ends there. \<open>states_after cs g\<close> lists the state
  after each call of \<open>cs\<close> that completed, in order.
\<close>

datatype call = Lock LockType | LockToWrite | UnlockToRead | Unlock

fun step :: "call \<Rightarrow> 'a gate_scheme \<Rightarrow> error + 'a gate_scheme" where
  "step (Lock t) g = Inr (snd (lock t g))"
| "step LockToWrite g = (case lockToWrite g of Inl e \<Rightarrow> Inl e | Inr (_, g') \<Rightarrow> Inr g')"
| "step UnlockToRead g = unlockToRead g"
| "step Unlock g = unlock g"

fun states_after :: "call list \<Rightarrow> 'a gate_scheme \<Rightarrow> 'a gate_scheme list" where
  "states_after [] g = []"
| "states_after (c # cs) g =
     (case step c g of Inl e \<Rightarrow> [] | Inr g' \<Rightarrow> g' # states_after cs g')"

section \<open>Views of an image's pixels (\<^verbatim>\<open>raster/image_bits.h\<close>)\<close>

text \<open>
  A C++ \<^verbatim>\<open>int\<close> is a word of 32 bits: \<open>+\<close> and \<open>-\<close> wrap around, as the compiled
  code does when a sum passes \<^verbatim>\<open>INT_MAX\<close>, and \<open>sint\<close> reads the value, so that
  \<^verbatim>\<open>a <= b\<close> on two \<^verbatim>\<open>int\<close>s is \<open>sint a \<le> sint b\<close>.
\<close>

type_synonym int32 = "32 word"

text \<open>
  Modelled from the spec: \<^verbatim>\<open>gfx::Rect\<close> and \<^verbatim>\<open>raster::Image\<close> are not among the
  sources. The spec gives a region as an origin with a width and a height, and a buffer
  as its extents and its elements; the fields are the ones \<^verbatim>\<open>image_bits.h\<close> reads
  (\<^verbatim>\<open>bounds.x\<close>, \<^verbatim>\<open>bounds.w\<close>, \<^verbatim>\<open>image->width()\<close>, ...), all of them C++
  \<^verbatim>\<open>int\<close>s. An image also carries its pixel data.
\<close>

record Rect =
  rect_x :: int32
  rect_y :: int32
  rect_w :: int32
  rect_h :: int32

record Image =
  width :: int32
  height :: int32
  pixels :: "nat list"

text \<open>
  \<^verbatim>\<open>ImageBits\<close>: a pointer to the image (\<open>None\<close> is \<^verbatim>\<open>NULL\<close>) and the
  rectangle of the view.
\<close>

record ImageBits =
  m_image :: "Image option"
  m_bounds :: Rect

text \<open>\<^verbatim>\<open>ImageBits(Image* image, const gfx::Rect& bounds)\<close>.\<close>

definition ImageBits_ctor :: "Image \<Rightarrow> Rect \<Rightarrow> error + ImageBits" where
  "ImageBits_ctor img bounds =
     (case ASSERT (sint (rect_x bounds) \<ge> 0 \<and>
                   sint (rect_x bounds + rect_w bounds) \<le> sint (width img) \<and>
                   sint (rect_y bounds) \<ge> 0 \<and>
                   sint (rect_y bounds + rect_h bounds) \<le> sint (height img)) of
        Inl e \<Rightarrow> Inl e
      | Inr _ \<Rightarrow> Inr \<lparr>m_image = Some img, m_bounds = bounds\<rparr>)"

text \<open>
  Modelled from the spec: \<^verbatim>\<open>ImageIterator\<close> (\<^verbatim>\<open>raster/image_iterator.h\<close> is not
  among the sources). The spec gives a forward iterator over the window's elements, each
  addressed by its coordinates, in row-major order: a row left to right, then the next
  row. The iterator is built from the image, the rectangle it walks and a position
  (the four arguments \<^verbatim>\<open>image_bits.h\<close> passes); \<open>incr\<close> is \<^verbatim>\<open>operator++\<close>: one
  step to the right, and from the last column of the rectangle to the first column of
  the next row; \<open>deref\<close> is the element the iterator stands on, by its coordinates.
  The position is kept in two \<^verbatim>\<open>int\<close>s, as it is passed.
\<close>

record ImageIterator =
  it_image :: "Image option"
  it_bounds :: Rect
  it_x :: int32
  it_y :: int32

definition iterator :: "Image option \<Rightarrow> Rect \<Rightarrow> int32 \<Rightarrow> int32 \<Rightarrow> ImageIterator" where
  "iterator img bounds px py = \<lparr>it_image = img, it_bounds = bounds, it_x = px, it_y = py\<rparr>"

definition incr :: "ImageIterator \<Rightarrow> ImageIterator" where
  "incr it =
     (if it_x it + 1 = rect_x (it_bounds it) + rect_w (it_bounds it)
      then it\<lparr>it_x := rect_x (it_bounds it), it_y := it_y it + 1\<rparr>
      else it\<lparr>it_x := it_x it + 1\<rparr>)"

definition deref :: "ImageIterator \<Rightarrow> int \<times> int" where
  "deref it = (sint (it_x it), sint (it_y it))"

text \<open>\<^verbatim>\<open>ImageBits::begin()\<close> and \<^verbatim>\<open>ImageBits::end()\<close>.\<close>

definition ImageBits_begin :: "ImageBits \<Rightarrow> ImageIterator" where
  "ImageBits_begin bits =
     iterator (m_image bits) (m_bounds bits) (rect_x (m_bounds bits)) (rect_y (m_bounds bits))"

definition ImageBits_end :: "ImageBits \<Rightarrow> ImageIterator" where
  "ImageBits_end bits =
     (let it = iterator (m_image bits) (m_bounds bits)
                 (rect_x (m_bounds bits) + rect_w (m_bounds bits) - 1)
                 (rect_y (m_bounds bits) + rect_h (m_bounds bits) - 1)
      in incr it)"

text \<open>
  The caller's loop \<^verbatim>\<open>for (it = begin; it != end; ++it) visit(*it)\<close>, collecting the
  elements visited. The loop has no bound of its own, so it is a partial function:
  \<open>None\<close> is a loop that never reaches \<open>end\<close>.
\<close>

partial_function (option) iterate ::
  "ImageIterator \<Rightarrow> ImageIterator \<Rightarrow> (int \<times> int) list \<Rightarrow> (int \<times> int) list option" where
  "iterate it stop visited =
     (if it = stop then Some visited else iterate (incr it) stop (visited @ [deref it]))"

declare iterate.simps [code]

text \<open>
  Two loops of the caller over the same view, one after the other: the sequences that
  the first and the second visit.
\<close>

definition iterate_twice :: "ImageBits \<Rightarrow> ((int \<times> int) list \<times> (int \<times> int) list) option" where
  "iterate_twice bits =
     (case iterate (ImageBits_begin bits) (ImageBits_end bits) [] of
        None \<Rightarrow> None
      | Some first \<Rightarrow>
          (case iterate (ImageBits_begin bits) (ImageBits_end bits) [] of
             None \<Rightarrow> None
           | Some second \<Rightarrow> Some (first, second)))"

text \<open>
  The elements of a rectangle in row-major order, as the spec's data model lists them:
  \<open>(x + i, y + j)\<close> for \<open>0 \<le> i < w\<close> and \<open>0 \<le> j < h\<close>, row after row, with \<open>x\<close>, \<open>y\<close>,
  \<open>w\<close> and \<open>h\<close> the values of the rectangle's fields.
\<close>

definition row_of :: "Rect \<Rightarrow> int \<Rightarrow> (int \<times> int) list" where
  "row_of r j = map (\<lambda>i. (sint (rect_x r) + i, sint (rect_y r) + j)) [0..sint (rect_w r) - 1]"

definition row_major :: "Rect \<Rightarrow> (int \<times> int) list" where
  "row_major r = concat (map (row_of r) [0..sint (rect_h r) - 1])"

text \<open>
  \<^verbatim>\<open>ImageBits::unlock()\<close>. \<^verbatim>\<open>Image::unlockBits\<close> is declared outside the
  sources, so it is a parameter: given the image, the view and the state \<open>s\<close> of
  whatever it acts on, it fails or returns the new state.
\<close>

definition ImageBits_unlock ::
  "(Image \<Rightarrow> ImageBits \<Rightarrow> 's \<Rightarrow> error + 's) \<Rightarrow> ImageBits \<Rightarrow> 's \<Rightarrow> error + ImageBits \<times> 's" where
  "ImageBits_unlock unlockBits bits s =
     (case m_image bits of
        Some img \<Rightarrow>
          (case unlockBits img bits s of
             Inl e \<Rightarrow> Inl e
           | Inr s' \<Rightarrow> Inr (bits\<lparr>m_image := None\<rparr>, s'))
      | None \<Rightarrow> Inr (bits, s))"

text \<open>An image of 5 by 3 pixels, for the examples.\<close>

definition image_5x3 :: Image where
  "image_5x3 = \<lparr>width = 5, height = 3, pixels = replicate 15 0\<rparr>"

text \<open>An \<^verbatim>\<open>unlockBits\<close> that counts how often it is called and never fails.\<close>

definition counting_unlockBits :: "Image \<Rightarrow> ImageBits \<Rightarrow> nat \<Rightarrow> error + nat" where
  "counting_unlockBits img bits n = Inr (n + 1)"

section \<open>Documents and their duplication (\<^verbatim>\<open>app/document.cpp\<close>)\<close>

subsection \<open>Objects and the store\<close>

text \<open>
  Objects made by \<^verbatim>\<open>new\<close> have an identity: an address. The store hands out
  addresses in increasing order (\<open>lim\<close> is the next one) and holds the pixel buffers,
  which are the objects that are reached through pointers and indices and whose sharing
  matters; layers, cels, palettes and masks are owned by exactly one parent, so they are
  values that carry their address.
\<close>

type_synonym addr = nat

record Store =
  lim :: addr
  images :: "addr \<rightharpoonup> Image"

definition alloc :: "Store \<Rightarrow> addr \<times> Store" where
  "alloc st = (lim st, st\<lparr>lim := lim st + 1\<rparr>)"

text \<open>
  Modelled from the spec: \<^verbatim>\<open>Image::createCopy\<close> (\<^verbatim>\<open>raster/image.h\<close> is not among
  the sources) makes a new buffer whose pixel data equals the source's by value.
\<close>

definition Image_createCopy :: "addr \<Rightarrow> Store \<Rightarrow> error + addr \<times> Store" where
  "Image_createCopy a st =
     (case images st a of
        None \<Rightarrow> Inl InvalidPointer
      | Some im \<Rightarrow> (let (n, st') = alloc st in Inr (n, st'\<lparr>images := (images st')(n \<mapsto> im)\<rparr>)))"

text \<open>
  Modelled from the spec: the classes \<^verbatim>\<open>Cel\<close>, \<^verbatim>\<open>Layer\<close>, \<^verbatim>\<open>LayerImage\<close>,
  \<^verbatim>\<open>LayerFolder\<close>, \<^verbatim>\<open>Stock\<close>, \<^verbatim>\<open>Palette\<close>, \<^verbatim>\<open>Mask\<close> and \<^verbatim>\<open>Sprite\<close>
  are not among the sources. The spec gives the document graph as a tree of layers (image
  layers holding cels, folders holding layers), frames with durations, palettes and a
  selection mask; a cel refers to its image by an index into the sprite's stock of images.
  The fields are the ones \<^verbatim>\<open>document.cpp\<close> reads and writes.
\<close>

record Cel =
  cel_addr :: addr
  cel_frame :: nat
  cel_image :: nat
  cel_x :: int
  cel_y :: int
  cel_opacity :: int

datatype Layer =
    LayerImage addr string "Cel list"
  | LayerFolder addr string "Layer list"

record Palette =
  pal_addr :: addr
  pal_frame :: nat
  pal_colors :: "nat list"

record Mask =
  mask_addr :: addr
  mask_bounds :: Rect
  mask_bitmap :: "addr option"

record Sprite =
  spr_addr :: addr
  pixelFormat :: nat
  spr_width :: int
  spr_height :: int
  totalFrames :: nat
  frlens :: "int list"
  palettes :: "Palette list"
  folder :: Layer
  stock :: "addr option list"

text \<open>
  Modelled from the spec: \<^verbatim>\<open>gfx::Transformation\<close> is not among the sources; the spec
  calls it the transform state of the selection. All that \<^verbatim>\<open>document.cpp\<close> does with
  one is to build it from a rectangle (\<^verbatim>\<open>Transformation(bounds)\<close>) or from nothing
  (\<^verbatim>\<open>Transformation()\<close>) and to store it: here it is the rectangle it was built from,
  the empty rectangle when built from nothing.
\<close>

record Transformation =
  tr_bounds :: Rect

definition Transformation_of :: "Rect \<Rightarrow> Transformation" where
  "Transformation_of bounds = \<lparr>tr_bounds = bounds\<rparr>"

definition Transformation_default :: Transformation where
  "Transformation_default = \<lparr>tr_bounds = \<lparr>rect_x = 0, rect_y = 0, rect_w = 0, rect_h = 0\<rparr>\<rparr>"

text \<open>
  Modelled from the spec: the cached outline of the selection, a number of segments and
  the array holding them (\<^verbatim>\<open>NULL\<close> when there is none); \<^verbatim>\<open>BoundSeg\<close> is not among
  the sources, and \<^verbatim>\<open>document.cpp\<close> uses the two end points of a segment.
\<close>

record BoundSeg =
  seg_x1 :: int32
  seg_y1 :: int32
  seg_x2 :: int32
  seg_y2 :: int32

record Boundary =
  nseg :: int
  seg :: "BoundSeg list option"

text \<open>
  Modelled from the spec: the class \<^verbatim>\<open>Document\<close> is declared in \<^verbatim>\<open>app/document.h\<close>,
  not among the sources. The spec gives a document as the owner of the graph and of one
  gate. The fields are the lock fields and the ones that the constructor, the destructor
  and \<^verbatim>\<open>duplicate\<close> touch; pointers that may be \<^verbatim>\<open>NULL\<close> are options. (The undo
  history, the mutex and the format options play no part in these functions.)
\<close>

record Document = gate +
  m_sprite :: "Sprite option"
  m_context :: "addr option"
  m_filename :: string
  m_associated_to_file :: bool
  m_bound :: Boundary
  m_extraCel :: "Cel option"
  m_extraImage :: "Image option"
  m_mask :: "Mask option"
  m_maskVisible :: bool
  m_transformation :: Transformation

subsection \<open>The collaborators\<close>

text \<open>
  Modelled from the spec: \<^verbatim>\<open>new Mask()\<close> is an empty selection; \<^verbatim>\<open>new Mask(*mask)\<close>
  is a deep copy, with a buffer of its own; \<^verbatim>\<open>isEmpty\<close> is a mask without bitmap.
\<close>

definition Mask_ctor :: "Store \<Rightarrow> Mask \<times> Store" where
  "Mask_ctor st =
     (let (a, st') = alloc st
      in (\<lparr>mask_addr = a, mask_bounds = \<lparr>rect_x = 0, rect_y = 0, rect_w = 0, rect_h = 0\<rparr>,
           mask_bitmap = None\<rparr>, st'))"

definition Mask_copy :: "Mask \<Rightarrow> Store \<Rightarrow> error + Mask \<times> Store" where
  "Mask_copy m st =
     (let (a, st1) = alloc st in
      case mask_bitmap m of
        None \<Rightarrow> Inr (m\<lparr>mask_addr := a\<rparr>, st1)
      | Some b \<Rightarrow>
          (case Image_createCopy b st1 of
             Inl e \<Rightarrow> Inl e
           | Inr (b', st2) \<Rightarrow> Inr (m\<lparr>mask_addr := a, mask_bitmap := Some b'\<rparr>, st2)))"

definition isEmpty :: "Mask \<Rightarrow> bool" where
  "isEmpty m \<longleftrightarrow> mask_bitmap m = None"

text \<open>
  Modelled from the spec: the stock of a sprite is the list of its image pointers;
  \<^verbatim>\<open>addImage\<close> puts a pointer at the end and returns its index, \<^verbatim>\<open>getImage\<close> reads
  the pointer at an index (\<^verbatim>\<open>NULL\<close> when there is none).
\<close>

definition Stock_addImage :: "addr \<Rightarrow> addr option list \<Rightarrow> nat \<times> addr option list" where
  "Stock_addImage a stk = (length stk, stk @ [Some a])"

definition Stock_getImage :: "addr option list \<Rightarrow> nat \<Rightarrow> addr option" where
  "Stock_getImage stk i = (if i < length stk then stk ! i else None)"

text \<open>
  Modelled from the spec: a folder keeps its layers in a list. \<^verbatim>\<open>getLastLayer\<close> is the
  last of them (\<^verbatim>\<open>NULL\<close> in an empty folder), \<^verbatim>\<open>addLayer\<close> appends, and
  \<^verbatim>\<open>stackLayer(layer, after)\<close> takes \<open>layer\<close> out of the list and puts it back right
  behind \<open>after\<close>, or in front when \<open>after\<close> is \<^verbatim>\<open>NULL\<close>. Layers are found by
  identity.
\<close>

fun Layer_addr :: "Layer \<Rightarrow> addr" where
  "Layer_addr (LayerImage a n cs) = a"
| "Layer_addr (LayerFolder a n ls) = a"

definition getLastLayer :: "Layer list \<Rightarrow> addr option" where
  "getLastLayer ls = (if ls = [] then None else Some (Layer_addr (last ls)))"

definition addLayer :: "Layer list \<Rightarrow> Layer \<Rightarrow> Layer list" where
  "addLayer ls l = ls @ [l]"

fun take_out :: "addr \<Rightarrow> Layer list \<Rightarrow> Layer list" where
  "take_out a [] = []"
| "take_out a (l # ls) = (if Layer_addr l = a then ls else l # take_out a ls)"

fun put_behind :: "addr \<Rightarrow> Layer \<Rightarrow> Layer list \<Rightarrow> Layer list" where
  "put_behind a n [] = [n]"
| "put_behind a n (l # ls) = (if Layer_addr l = a then l # n # ls else l # put_behind a n ls)"

definition stackLayer :: "Layer list \<Rightarrow> Layer \<Rightarrow> addr option \<Rightarrow> Layer list" where
  "stackLayer ls l after =
     (let ls' = take_out (Layer_addr l) ls
      in case after of None \<Rightarrow> l # ls' | Some a \<Rightarrow> put_behind a l ls')"

text \<open>
  Modelled from the spec: a new sprite has one frame, one palette (for frame 0, of the
  size asked for), an empty root folder and an empty stock. \<^verbatim>\<open>setTotalFrames\<close> sets
  the number of frames and sizes the list of durations to it; \<^verbatim>\<open>setFrameDuration\<close> and
  \<^verbatim>\<open>getFrameDuration\<close> write and read one duration; \<^verbatim>\<open>getPalette(frame)\<close> is the
  palette in force at a frame; \<^verbatim>\<open>setPalette(pal, true)\<close> copies the colours of
  \<open>pal\<close> into the sprite's palette for the same frame, or puts a copy of \<open>pal\<close> into
  the list, which is ordered by frame, when the sprite has none for that frame.
\<close>

definition Sprite_ctor :: "nat \<Rightarrow> int \<Rightarrow> int \<Rightarrow> nat \<Rightarrow> Store \<Rightarrow> Sprite \<times> Store" where
  "Sprite_ctor format w h ncolors st =
     (let (sa, st1) = alloc st;
          (fa, st2) = alloc st1;
          (pa, st3) = alloc st2
      in (\<lparr>spr_addr = sa, pixelFormat = format, spr_width = w, spr_height = h,
           totalFrames = 1, frlens = [100],
           palettes = [\<lparr>pal_addr = pa, pal_frame = 0, pal_colors = replicate ncolors 0\<rparr>],
           folder = LayerFolder fa [] [], stock = []\<rparr>, st3))"

definition setTotalFrames :: "nat \<Rightarrow> Sprite \<Rightarrow> Sprite" where
  "setTotalFrames n spr =
     spr\<lparr>totalFrames := n, frlens := take n (frlens spr) @ replicate (n - length (frlens spr)) 100\<rparr>"

definition setFrameDuration :: "nat \<Rightarrow> int \<Rightarrow> Sprite \<Rightarrow> Sprite" where
  "setFrameDuration i msecs spr = spr\<lparr>frlens := (frlens spr)[i := msecs]\<rparr>"

definition getFrameDuration :: "Sprite \<Rightarrow> nat \<Rightarrow> int" where
  "getFrameDuration spr i = (if i < length (frlens spr) then frlens spr ! i else 0)"

definition getPalette :: "Sprite \<Rightarrow> nat \<Rightarrow> Palette option" where
  "getPalette spr f =
     (case filter (\<lambda>p. pal_frame p \<le> f) (palettes spr) of
        [] \<Rightarrow> None
      | p # ps \<Rightarrow> Some (last (p # ps)))"

fun setPalette :: "Palette \<Rightarrow> Palette list \<Rightarrow> Store \<Rightarrow> Palette list \<times> Store" where
  "setPalette pal [] st = (let (a, st') = alloc st in ([pal\<lparr>pal_addr := a\<rparr>], st'))"
| "setPalette pal (other # rest) st =
     (if pal_frame pal = pal_frame other then (other\<lparr>pal_colors := pal_colors pal\<rparr> # rest, st)
      else if pal_frame pal < pal_frame other then
        (let (a, st') = alloc st in (pal\<lparr>pal_addr := a\<rparr> # other # rest, st'))
      else (let (rest', st') = setPalette pal rest st in (other # rest', st')))"

subsection \<open>The functions of \<^verbatim>\<open>document.cpp\<close>\<close>

text \<open>
  \<^verbatim>\<open>Document::Document(Sprite* sprite)\<close>. The constructor's own allocation that
  matters here is \<^verbatim>\<open>new Mask()\<close>; a new document is in no context.
\<close>

definition Document_ctor :: "Sprite option \<Rightarrow> Store \<Rightarrow> Document \<times> Store" where
  "Document_ctor sprite st =
     (let (msk, st') = Mask_ctor st
      in (\<lparr>m_write_lock = False, m_read_locks = 0,
           m_sprite = sprite, m_context = None,
           m_filename = ''Sprite'', m_associated_to_file = False,
           m_bound = \<lparr>nseg = 0, seg = None\<rparr>,
           m_extraCel = None, m_extraImage = None,
           m_mask = Some msk, m_maskVisible = True,
           m_transformation = Transformation_default\<rparr>, st'))"

text \<open>\<^verbatim>\<open>Document::destroyExtraCel()\<close>.\<close>

definition destroyExtraCel :: "Document \<Rightarrow> Document" where
  "destroyExtraCel d = d\<lparr>m_extraCel := None, m_extraImage := None\<rparr>"

text \<open>
  \<^verbatim>\<open>Document::~Document()\<close>: the assertion about the context, the release of the
  boundary segments (\<^verbatim>\<open>base_free\<close> gives the array back and leaves the fields as they
  are), and \<^verbatim>\<open>destroyExtraCel\<close>. The result is the object as the destructor's body
  leaves it.
\<close>

definition Document_dtor :: "Document \<Rightarrow> error + Document" where
  "Document_dtor d =
     (case ASSERT (m_context d = None) of
        Inl e \<Rightarrow> Inl e
      | Inr _ \<Rightarrow> Inr (destroyExtraCel d))"

text \<open>\<^verbatim>\<open>Document::isMaskVisible()\<close>.\<close>

definition isMaskVisible :: "Document \<Rightarrow> bool" where
  "isMaskVisible d \<longleftrightarrow>
     m_maskVisible d \<and> (case m_mask d of None \<Rightarrow> False | Some m \<Rightarrow> \<not> isEmpty m)"

text \<open>
  \<^verbatim>\<open>Document::generateMaskBoundaries(Mask* mask)\<close>. \<^verbatim>\<open>find_mask_boundary\<close> is not
  among the sources and is a parameter: from the mask's bitmap, the array of segments it
  found (their number goes to \<^verbatim>\<open>nseg\<close>).
\<close>

definition shift_seg :: "Rect \<Rightarrow> BoundSeg \<Rightarrow> BoundSeg" where
  "shift_seg r sg =
     sg\<lparr>seg_x1 := seg_x1 sg + rect_x r, seg_y1 := seg_y1 sg + rect_y r,
        seg_x2 := seg_x2 sg + rect_x r, seg_y2 := seg_y2 sg + rect_y r\<rparr>"

definition generateMaskBoundaries ::
  "(Image \<Rightarrow> BoundSeg list) \<Rightarrow> Mask option \<Rightarrow> Document \<Rightarrow> Store \<Rightarrow> error + Document" where
  "generateMaskBoundaries find_mask_boundary msk d st =
     (let d1 = (if seg (m_bound d) \<noteq> None then d\<lparr>m_bound := \<lparr>nseg = 0, seg = None\<rparr>\<rparr> else d)
      in if msk = None \<and> \<not> isMaskVisible d1 then Inr d1
         else
           (let msk' = (if msk = None then m_mask d1 else msk)
            in case ASSERT (msk' \<noteq> None) of
                 Inl e \<Rightarrow> Inl e
               | Inr _ \<Rightarrow>
                   (case msk' of
                      None \<Rightarrow> Inl InvalidPointer
                    | Some m \<Rightarrow>
                        (if \<not> isEmpty m then
                           (case Option.bind (mask_bitmap m) (images st) of
                              None \<Rightarrow> Inl InvalidPointer
                            | Some bitmap \<Rightarrow>
                                (let segs = find_mask_boundary bitmap
                                 in Inr (d1\<lparr>m_bound :=
                                      \<lparr>nseg = int (length segs),
                                       seg = Some (map (shift_seg (mask_bounds m)) segs)\<rparr>\<rparr>)))
                         else Inr d1))))"

text \<open>\<^verbatim>\<open>setTransformation\<close>, \<^verbatim>\<open>resetTransformation\<close> and \<^verbatim>\<open>setMask\<close>.\<close>

definition setTransformation :: "Transformation \<Rightarrow> Document \<Rightarrow> Document" where
  "setTransformation transform d = d\<lparr>m_transformation := transform\<rparr>"

definition resetTransformation :: "Document \<Rightarrow> Document" where
  "resetTransformation d =
     (case m_mask d of
        Some m \<Rightarrow> d\<lparr>m_transformation := Transformation_of (mask_bounds m)\<rparr>
      | None \<Rightarrow> d\<lparr>m_transformation := Transformation_default\<rparr>)"

definition setMask :: "Mask \<Rightarrow> Document \<Rightarrow> Store \<Rightarrow> error + Document \<times> Store" where
  "setMask msk d st =
     (case Mask_copy msk st of
        Inl e \<Rightarrow> Inl e
      | Inr (m, st') \<Rightarrow> Inr (resetTransformation (d\<lparr>m_mask := Some m, m_maskVisible := True\<rparr>), st'))"

text \<open>
  \<^verbatim>\<open>Document::copyLayerContent\<close>. The function works on the destination layer and,
  through \<^verbatim>\<open>destLayer->sprite()->stock()\<close>, on the stock of the destination sprite: both
  are passed in and returned. \<open>sstock\<close> is the stock of the source sprite, through which
  \<^verbatim>\<open>sourceCel->image()\<close> finds the cel's image.

  The loop over the cels of an image layer:
\<close>

fun copyCels ::
  "addr option list \<Rightarrow> Cel list \<Rightarrow> Cel list \<Rightarrow> addr option list \<Rightarrow> Store
     \<Rightarrow> error + Cel list \<times> addr option list \<times> Store" where
  "copyCels sstock [] dcels dstock st = Inr (dcels, dstock, st)"
| "copyCels sstock (sourceCel # rest) dcels dstock st =
     (let (a, st1) = alloc st;
          newCel = sourceCel\<lparr>cel_addr := a\<rparr>;
          sourceImage = Stock_getImage sstock (cel_image sourceCel)
      in case ASSERT (sourceImage \<noteq> None) of
           Inl e \<Rightarrow> Inl e
         | Inr _ \<Rightarrow>
             (case sourceImage of
                None \<Rightarrow> Inl InvalidPointer
              | Some src \<Rightarrow>
                  (case Image_createCopy src st1 of
                     Inl e \<Rightarrow> Inl e
                   | Inr (newImage, st2) \<Rightarrow>
                       (let (idx, dstock') = Stock_addImage newImage dstock;
                            newCel' = newCel\<lparr>cel_image := idx\<rparr>
                        in copyCels sstock rest (dcels @ [newCel']) dstock' st2))))"

text \<open>
  The function itself, and the loop over the layers of a folder. The destination child is
  made empty, filled by the recursive call, then added to the folder and stacked behind
  the layer that was last before. A layer is an image layer or a folder, so the branches
  of the source for a layer that is neither (\<^verbatim>\<open>ASSERT(false)\<close>, and with it a
  \<^verbatim>\<open>NULL\<close> child at \<^verbatim>\<open>ASSERT(destChild != NULL)\<close>) have no case here. The name is
  set first; with layers of two kinds the function then fails at its assertion.
\<close>

fun copyLayerContent ::
  "addr option list \<Rightarrow> Layer \<Rightarrow> Layer \<Rightarrow> addr option list \<Rightarrow> Store
     \<Rightarrow> error + Layer \<times> addr option list \<times> Store"
and copyChildren ::
  "addr option list \<Rightarrow> Layer list \<Rightarrow> Layer list \<Rightarrow> addr option list \<Rightarrow> Store
     \<Rightarrow> error + Layer list \<times> addr option list \<times> Store" where
  "copyLayerContent sstock (LayerImage sa sname scels) (LayerImage da dname dcels) dstock st =
     (case copyCels sstock scels dcels dstock st of
        Inl e \<Rightarrow> Inl e
      | Inr (dcels', dstock', st') \<Rightarrow> Inr (LayerImage da sname dcels', dstock', st'))"
| "copyLayerContent sstock (LayerFolder sa sname slayers) (LayerFolder da dname dlayers) dstock st =
     (case copyChildren sstock slayers dlayers dstock st of
        Inl e \<Rightarrow> Inl e
      | Inr (dlayers', dstock', st') \<Rightarrow> Inr (LayerFolder da sname dlayers', dstock', st'))"
| "copyLayerContent sstock (LayerImage sa sname scels) (LayerFolder da dname dlayers) dstock st =
     Inl AssertionFailed"
| "copyLayerContent sstock (LayerFolder sa sname slayers) (LayerImage da dname dcels) dstock st =
     Inl AssertionFailed"
| "copyChildren sstock [] dlayers dstock st = Inr (dlayers, dstock, st)"
| "copyChildren sstock (sourceChild # rest) dlayers dstock st =
     (let (a, st1) = alloc st;
          destChild = (case sourceChild of
                         LayerImage _ _ _ \<Rightarrow> LayerImage a [] []
                       | LayerFolder _ _ _ \<Rightarrow> LayerFolder a [] [])
      in case copyLayerContent sstock sourceChild destChild dstock st1 of
           Inl e \<Rightarrow> Inl e
         | Inr (newLayer, dstock', st2) \<Rightarrow>
             (let afterThis = getLastLayer dlayers;
                  dlayers' = stackLayer (addLayer dlayers newLayer) newLayer afterThis
              in copyChildren sstock rest dlayers' dstock' st2))"

text \<open>The two loops at the start of \<^verbatim>\<open>duplicate\<close>: frame durations and palettes.\<close>

fun copyFrameDurations :: "Sprite \<Rightarrow> nat list \<Rightarrow> Sprite \<Rightarrow> Sprite" where
  "copyFrameDurations sourceSprite [] spriteCopy = spriteCopy"
| "copyFrameDurations sourceSprite (i # is) spriteCopy =
     copyFrameDurations sourceSprite is
       (setFrameDuration i (getFrameDuration sourceSprite i) spriteCopy)"

fun copyPalettes :: "Palette list \<Rightarrow> Palette list \<Rightarrow> Store \<Rightarrow> Palette list \<times> Store" where
  "copyPalettes [] dpals st = (dpals, st)"
| "copyPalettes (pal # rest) dpals st =
     (let (dpals', st') = setPalette pal dpals st in copyPalettes rest dpals' st')"

datatype DuplicateType = DuplicateExactCopy | DuplicateWithFlattenLayers

text \<open>
  \<^verbatim>\<open>Document::duplicate(DuplicateType type)\<close>. The new document points to the new
  sprite, which the function goes on filling: the document's \<open>m_sprite\<close> is the sprite as
  the function leaves it. The case \<^verbatim>\<open>DuplicateWithFlattenLayers\<close> rests on
  \<^verbatim>\<open>create_flatten_layer_copy\<close>, \<^verbatim>\<open>backgroundLayer\<close> and \<^verbatim>\<open>configureAsBackground\<close>,
  none of them among the sources: the case is the parameter \<open>flattenLayers\<close>, from the
  source sprite and the new one to the new one with its flat layer.
\<close>

definition duplicate ::
  "(Image \<Rightarrow> BoundSeg list) \<Rightarrow> (Sprite \<Rightarrow> Sprite \<Rightarrow> Store \<Rightarrow> error + Sprite \<times> Store)
     \<Rightarrow> DuplicateType \<Rightarrow> Document \<Rightarrow> Store \<Rightarrow> error + Document \<times> Store" where
  "duplicate find_mask_boundary flattenLayers type d st =
     (case m_sprite d of
        None \<Rightarrow> Inl InvalidPointer
      | Some sourceSprite \<Rightarrow>
     (case getPalette sourceSprite 0 of
        None \<Rightarrow> Inl InvalidPointer
      | Some pal0 \<Rightarrow>
     (let (spriteCopy, st1) =
            Sprite_ctor (pixelFormat sourceSprite) (spr_width sourceSprite)
              (spr_height sourceSprite) (length (pal_colors pal0)) st;
          (documentCopy, st2) = Document_ctor (Some spriteCopy) st1;
          spriteCopy1 = setTotalFrames (totalFrames sourceSprite) spriteCopy;
          spriteCopy2 = copyFrameDurations sourceSprite [0..<totalFrames sourceSprite] spriteCopy1;
          (pals, st3) = copyPalettes (palettes sourceSprite) (palettes spriteCopy2) st2;
          spriteCopy3 = spriteCopy2\<lparr>palettes := pals\<rparr>
      in case (case type of
                 DuplicateExactCopy \<Rightarrow>
                   (case copyLayerContent (stock sourceSprite) (folder sourceSprite)
                           (folder spriteCopy3) (stock spriteCopy3) st3 of
                      Inl e \<Rightarrow> Inl e
                    | Inr (folder', stock', st4) \<Rightarrow>
                        Inr (spriteCopy3\<lparr>folder := folder', stock := stock'\<rparr>, st4))
               | DuplicateWithFlattenLayers \<Rightarrow> flattenLayers sourceSprite spriteCopy3 st3) of
           Inl e \<Rightarrow> Inl e
         | Inr (spriteCopy4, st4) \<Rightarrow>
             (case m_mask d of
                None \<Rightarrow> Inl InvalidPointer
              | Some msk \<Rightarrow>
                  (case setMask msk (documentCopy\<lparr>m_sprite := Some spriteCopy4\<rparr>) st4 of
                     Inl e \<Rightarrow> Inl e
                   | Inr (documentCopy1, st5) \<Rightarrow>
                       (case generateMaskBoundaries find_mask_boundary None
                               (documentCopy1\<lparr>m_maskVisible := m_maskVisible d\<rparr>) st5 of
                          Inl e \<Rightarrow> Inl e
                        | Inr documentCopy2 \<Rightarrow> Inr (documentCopy2, st5)))))))"

subsection \<open>What a copy has to preserve, and what it must not share\<close>

text \<open>
  The value of a cel is its frame, position, opacity and the image that its index finds
  in the stock; the value of a layer is its name with the values of its cels or of its
  layers. Addresses and stock indices are not part of the value: two graphs are equal by
  value when these agree, and share nothing when their addresses are disjoint.
\<close>

definition cel_content ::
  "addr option list \<Rightarrow> (addr \<rightharpoonup> Image) \<Rightarrow> Cel \<Rightarrow> nat \<times> int \<times> int \<times> int \<times> Image option" where
  "cel_content stk imgs c =
     (cel_frame c, cel_x c, cel_y c, cel_opacity c,
      Option.bind (Stock_getImage stk (cel_image c)) imgs)"

datatype LayerValue =
    ImageValue string "(nat \<times> int \<times> int \<times> int \<times> Image option) list"
  | FolderValue string "LayerValue list"

fun layer_content :: "addr option list \<Rightarrow> (addr \<rightharpoonup> Image) \<Rightarrow> Layer \<Rightarrow> LayerValue" where
  "layer_content stk imgs (LayerImage a n cs) = ImageValue n (map (cel_content stk imgs) cs)"
| "layer_content stk imgs (LayerFolder a n ls) = FolderValue n (map (layer_content stk imgs) ls)"

fun layer_addrs :: "Layer \<Rightarrow> addr set" where
  "layer_addrs (LayerImage a n cs) = insert a (cel_addr ` set cs)"
| "layer_addrs (LayerFolder a n ls) = insert a (\<Union>l \<in> set ls. layer_addrs l)"

fun layer_cels :: "Layer \<Rightarrow> Cel list" where
  "layer_cels (LayerImage a n cs) = cs"
| "layer_cels (LayerFolder a n ls) = concat (map layer_cels ls)"

text \<open>
  What \<^verbatim>\<open>duplicate\<close> needs of its source. Every cel's index finds, in the stock, the
  address of an image that the store holds (\<open>cels_ok\<close>, \<open>layer_ok\<close>); the palettes are
  ordered by frame and begin at frame 0 (\<open>palettes_ok\<close>); the bitmap of the mask, when
  there is one, is held by the store (\<open>mask_ok\<close>). \<open>stock_below\<close> and \<open>store_step\<close>
  say how the store and the destination stock grow during a copy: addresses are handed
  out upwards, what was allocated before is left alone, and the stock only holds
  allocated addresses. \<open>copied_layer\<close> and \<open>copies_layer\<close> state what
  \<^verbatim>\<open>copyLayerContent\<close> achieves on one layer, when the destination is a new empty layer
  of the same kind (\<open>empty_like\<close>).
\<close>

definition cels_ok :: "addr option list \<Rightarrow> Store \<Rightarrow> Cel list \<Rightarrow> bool" where
  "cels_ok stk st cs \<longleftrightarrow>
     (\<forall>c \<in> set cs. \<exists>a. Stock_getImage stk (cel_image c) = Some a \<and> a < lim st \<and> images st a \<noteq> None)"

definition stock_below :: "addr option list \<Rightarrow> addr \<Rightarrow> bool" where
  "stock_below stk n \<longleftrightarrow> (\<forall>a. Some a \<in> set stk \<longrightarrow> a < n)"

definition layer_ok :: "addr option list \<Rightarrow> Store \<Rightarrow> Layer \<Rightarrow> bool" where
  "layer_ok stk st L \<longleftrightarrow> cels_ok stk st (layer_cels L)"

definition store_step :: "Store \<Rightarrow> addr option list \<Rightarrow> addr option list \<Rightarrow> Store \<Rightarrow> bool" where
  "store_step st dstk newstk st' \<longleftrightarrow>
     lim st \<le> lim st' \<and> (\<forall>a<lim st. images st' a = images st a) \<and>
     stock_below (dstk @ newstk) (lim st') \<and> (\<forall>a. Some a \<in> set newstk \<longrightarrow> lim st \<le> a)"

definition empty_like :: "Layer \<Rightarrow> addr \<Rightarrow> Layer" where
  "empty_like L a = (case L of LayerImage _ _ _ \<Rightarrow> LayerImage a [] [] | LayerFolder _ _ _ \<Rightarrow> LayerFolder a [] [])"

definition copied_layer ::
  "addr option list \<Rightarrow> Store \<Rightarrow> Layer \<Rightarrow> addr \<Rightarrow> addr option list \<Rightarrow> Store \<Rightarrow> Layer \<Rightarrow> bool" where
  "copied_layer ss st L a stk' st' D' \<longleftrightarrow>
     Layer_addr D' = a \<and> layer_addrs D' \<subseteq> insert a {lim st..<lim st'} \<and>
     (\<forall>c\<in>set (layer_cels D'). cel_image c < length stk') \<and>
     layer_content stk' (images st') D' = layer_content ss (images st) L"

definition copies_layer :: "addr option list \<Rightarrow> Layer \<Rightarrow> bool" where
  "copies_layer ss L \<longleftrightarrow>
     (\<forall>a dstk st. layer_ok ss st L \<longrightarrow> stock_below dstk (lim st) \<longrightarrow>
        (\<exists>D' newstk st'.
           copyLayerContent ss L (empty_like L a) dstk st = Inr (D', dstk @ newstk, st') \<and>
           store_step st dstk newstk st' \<and> copied_layer ss st L a (dstk @ newstk) st' D'))"

text \<open>
  The values of a palette and of a mask, the number of layers of a tree, and the addresses
  of all the objects of a sprite, a mask and a document.
\<close>

definition pal_content :: "Palette \<Rightarrow> nat \<times> nat list" where
  "pal_content p = (pal_frame p, pal_colors p)"

definition mask_content :: "(addr \<rightharpoonup> Image) \<Rightarrow> Mask \<Rightarrow> Rect \<times> Image option" where
  "mask_content imgs m = (mask_bounds m, Option.bind (mask_bitmap m) imgs)"

fun count_layers :: "Layer \<Rightarrow> nat" where
  "count_layers (LayerImage a n cs) = 1"
| "count_layers (LayerFolder a n ls) = 1 + sum_list (map count_layers ls)"

fun count_value :: "LayerValue \<Rightarrow> nat" where
  "count_value (ImageValue n cs) = 1"
| "count_value (FolderValue n ls) = 1 + sum_list (map count_value ls)"

definition stock_addrs :: "addr option list \<Rightarrow> addr set" where
  "stock_addrs stk = {a. Some a \<in> set stk}"

definition sprite_addrs :: "Sprite \<Rightarrow> addr set" where
  "sprite_addrs spr =
     insert (spr_addr spr)
       (layer_addrs (folder spr) \<union> pal_addr ` set (palettes spr) \<union> stock_addrs (stock spr))"

definition mask_addrs :: "Mask \<Rightarrow> addr set" where
  "mask_addrs m = insert (mask_addr m) (set_option (mask_bitmap m))"

definition document_addrs :: "Document \<Rightarrow> addr set" where
  "document_addrs d =
     (case m_sprite d of None \<Rightarrow> {} | Some spr \<Rightarrow> sprite_addrs spr) \<union>
     (case m_mask d of None \<Rightarrow> {} | Some m \<Rightarrow> mask_addrs m)"

definition palettes_ok :: "Palette list \<Rightarrow> bool" where
  "palettes_ok ps \<longleftrightarrow> ps \<noteq> [] \<and> pal_frame (hd ps) = 0 \<and> sorted_wrt (<) (map pal_frame ps)"

definition mask_ok :: "Mask \<Rightarrow> Store \<Rightarrow> bool" where
  "mask_ok m st \<longleftrightarrow> (case mask_bitmap m of None \<Rightarrow> True | Some b \<Rightarrow> images st b \<noteq> None)"

subsection \<open>Examples\<close>

text \<open>
  A store and a document with two frames, two palettes, an image layer with two cels and a
  folder holding a second image layer; its selection has been moved by
  \<^verbatim>\<open>setTransformation\<close>. The two parameters of \<^verbatim>\<open>duplicate\<close> are instantiated by a
  boundary finder that finds nothing and a flatten case that adds nothing.
\<close>

definition empty_store :: Store where
  "empty_store = \<lparr>lim = 0, images = Map.empty\<rparr>"

definition no_boundary :: "Image \<Rightarrow> BoundSeg list" where
  "no_boundary bitmap = []"

definition no_flatten :: "Sprite \<Rightarrow> Sprite \<Rightarrow> Store \<Rightarrow> error + Sprite \<times> Store" where
  "no_flatten sourceSprite spriteCopy st = Inr (spriteCopy, st)"

definition example_store :: Store where
  "example_store =
     \<lparr>lim = 20,
      images = [10 \<mapsto> \<lparr>width = 2, height = 1, pixels = [1, 2]\<rparr>,
                11 \<mapsto> \<lparr>width = 2, height = 1, pixels = [3, 4]\<rparr>,
                12 \<mapsto> \<lparr>width = 1, height = 1, pixels = [5]\<rparr>,
                15 \<mapsto> \<lparr>width = 1, height = 1, pixels = [1]\<rparr>]\<rparr>"

definition example_sprite :: Sprite where
  "example_sprite =
     \<lparr>spr_addr = 1, pixelFormat = 0, spr_width = 2, spr_height = 1,
      totalFrames = 2, frlens = [100, 250],
      palettes = [\<lparr>pal_addr = 2, pal_frame = 0, pal_colors = [7, 8, 9]\<rparr>,
                  \<lparr>pal_addr = 3, pal_frame = 1, pal_colors = [9, 8, 7]\<rparr>],
      folder = LayerFolder 4 ''Root''
                 [LayerImage 5 ''Background''
                    [\<lparr>cel_addr = 6, cel_frame = 0, cel_image = 1, cel_x = 0, cel_y = 0, cel_opacity = 255\<rparr>,
                     \<lparr>cel_addr = 7, cel_frame = 1, cel_image = 0, cel_x = 0, cel_y = 0, cel_opacity = 255\<rparr>],
                  LayerFolder 8 ''Group''
                    [LayerImage 9 ''Top''
                       [\<lparr>cel_addr = 13, cel_frame = 0, cel_image = 2, cel_x = 1, cel_y = 0, cel_opacity = 128\<rparr>]]],
      stock = [Some 10, Some 11, Some 12]\<rparr>"

definition example_mask :: Mask where
  "example_mask = \<lparr>mask_addr = 14, mask_bounds = \<lparr>rect_x = 0, rect_y = 0, rect_w = 1, rect_h = 1\<rparr>,
                      mask_bitmap = Some 15\<rparr>"

definition example_document :: Document where
  "example_document =
     \<lparr>m_write_lock = False, m_read_locks = 1,
      m_sprite = Some example_sprite, m_context = None,
      m_filename = ''a.ase'', m_associated_to_file = True,
      m_bound = \<lparr>nseg = 0, seg = None\<rparr>,
      m_extraCel = None, m_extraImage = None,
      m_mask = Some example_mask,
      m_maskVisible = True,
      m_transformation = Transformation_of \<lparr>rect_x = 3, rect_y = 2, rect_w = 1, rect_h = 1\<rparr>\<rparr>"

definition duplicate_exact :: "Document \<Rightarrow> Store \<Rightarrow> Document option" where
  "duplicate_exact d st =
     (case duplicate no_boundary no_flatten DuplicateExactCopy d st of
        Inl e \<Rightarrow> None
      | Inr (copy, st') \<Rightarrow> Some copy)"

definition document_with_two_readers :: Document where
  "document_with_two_readers =
     snd (lock ReadLock (snd (lock ReadLock (fst (Document_ctor None empty_store)))))"

section \<open>Properties of the document lock\<close>

lemma lock_preserves_inv: "gate_inv g \<Longrightarrow> gate_inv (snd (lock t g))"
  by (cases t) (simp_all add: gate_inv_def)

lemma lockToWrite_establishes_inv: "lockToWrite g = Inr (b, g') \<Longrightarrow> gate_inv g \<Longrightarrow> gate_inv g'"
  by (auto simp: lockToWrite_def ASSERT_def gate_inv_def split: if_splits)

lemma unlockToRead_establishes_inv: "unlockToRead g = Inr g' \<Longrightarrow> gate_inv g'"
  by (auto simp: unlockToRead_def ASSERT_def gate_inv_def split: if_splits)

lemma unlock_preserves_inv: "unlock g = Inr g' \<Longrightarrow> gate_inv g \<Longrightarrow> gate_inv g'"
  by (auto simp: unlock_def ASSERT_def gate_inv_def split: if_splits)

lemma step_preserves_inv:
  assumes "gate_inv g" and "step c g = Inr g'"
  shows "gate_inv g'"
proof (cases c)
  case (Lock t)
  with assms show ?thesis using lock_preserves_inv [of g t] by auto
next
  case LockToWrite
  with assms show ?thesis
    by (auto split: sum.splits dest: lockToWrite_establishes_inv)
next
  case UnlockToRead
  with assms show ?thesis by (auto dest: unlockToRead_establishes_inv)
next
  case Unlock
  with assms show ?thesis by (auto dest: unlock_preserves_inv)
qed

lemma states_after_inv:
  "gate_inv g \<Longrightarrow> \<forall>s \<in> set (states_after cs g). gate_inv s"
proof (induction cs arbitrary: g)
  case Nil
  show ?case by simp
next
  case (Cons c cs)
  show ?case
  proof (cases "step c g")
    case (Inl e)
    then show ?thesis by simp
  next
    case (Inr g')
    with Cons.prems have "gate_inv g'" by (rule step_preserves_inv)
    with Cons.IH [of g'] Inr show ?thesis by simp
  qed
qed

lemma fresh_inv: "gate_inv fresh"
  by (simp add: gate_inv_def fresh_def)

text \<open>
  C1. Whatever sequence of \<^verbatim>\<open>lock(ReadLock)\<close>, \<^verbatim>\<open>lock(WriteLock)\<close>,
  \<^verbatim>\<open>lockToWrite\<close>, \<^verbatim>\<open>unlockToRead\<close> and \<^verbatim>\<open>unlock\<close> calls is made on
  a freshly constructed document, after every call that returns, an active writer implies
  that there is no reader (and so a positive reader count implies that no writer is active).
\<close>

theorem gate_invariant_after_every_call:
  "\<forall>s \<in> set (states_after cs fresh).
     (m_write_lock s \<longrightarrow> m_read_locks s = 0) \<and> (m_read_locks s > 0 \<longrightarrow> \<not> m_write_lock s)"
  using states_after_inv [OF fresh_inv, of cs] by (auto simp: gate_inv_def)

theorem gate_invariant_after_every_call_witness:
  "states_after [Lock ReadLock, LockToWrite, UnlockToRead, Unlock, Lock WriteLock] fresh =
     [\<lparr>m_write_lock = False, m_read_locks = 1\<rparr>,
      \<lparr>m_write_lock = True, m_read_locks = 0\<rparr>,
      \<lparr>m_write_lock = False, m_read_locks = 1\<rparr>,
      \<lparr>m_write_lock = False, m_read_locks = 0\<rparr>,
      \<lparr>m_write_lock = True, m_read_locks = 0\<rparr>]
   \<and> m_write_lock (states_after [Lock ReadLock, LockToWrite, UnlockToRead, Unlock, Lock WriteLock] fresh ! 1)
   \<and> m_read_locks (states_after [Lock ReadLock, LockToWrite, UnlockToRead, Unlock, Lock WriteLock] fresh ! 1) = 0
   \<and> m_read_locks (states_after [Lock ReadLock, LockToWrite, UnlockToRead, Unlock, Lock WriteLock] fresh ! 2) > 0
   \<and> \<not> m_write_lock (states_after [Lock ReadLock, LockToWrite, UnlockToRead, Unlock, Lock WriteLock] fresh ! 2)"
  using gate_invariant_after_every_call
          [of "[Lock ReadLock, LockToWrite, UnlockToRead, Unlock, Lock WriteLock]"]
  by (simp add: fresh_def lockToWrite_def unlockToRead_def unlock_def ASSERT_def)

text \<open>
  C2. In every state, \<^verbatim>\<open>lock(ReadLock)\<close> returns true exactly when no writer is
  active, and then adds one to the reader count and touches nothing else;
  \<^verbatim>\<open>lock(WriteLock)\<close> returns true exactly when there is no reader and no writer, and then
  sets the writer flag and touches nothing else. In every other state the call returns
  false and the state is the one it was.
\<close>

theorem lock_succeeds_iff:
  "lock ReadLock g =
     (if \<not> m_write_lock g then (True, g\<lparr>m_read_locks := m_read_locks g + 1\<rparr>) else (False, g))
   \<and> lock WriteLock g =
     (if m_read_locks g = 0 \<and> \<not> m_write_lock g then (True, g\<lparr>m_write_lock := True\<rparr>)
      else (False, g))
   \<and> (fst (lock ReadLock g) \<longleftrightarrow> \<not> m_write_lock g)
   \<and> (fst (lock WriteLock g) \<longleftrightarrow> m_read_locks g = 0 \<and> \<not> m_write_lock g)"
  by simp

text \<open>
  C3. \<^verbatim>\<open>lockToWrite\<close> returns true exactly when there is one reader and no writer, and
  then the reader count is 0 and the writer flag is set. With no reader or with two or
  more readers it returns false and the state is the one it was. With an active writer
  it returns false as well, in every state in which the invariant of the gate holds: there
  a writer excludes every reader, and the state with one reader and a writer is the one
  that the function's own assertion rules out.
\<close>

theorem lockToWrite_succeeds_iff:
  "((\<exists>g'. lockToWrite g = Inr (True, g')) \<longleftrightarrow> m_read_locks g = 1 \<and> \<not> m_write_lock g)
   \<and> (m_read_locks g = 1 \<and> \<not> m_write_lock g \<longrightarrow>
        lockToWrite g = Inr (True, g\<lparr>m_read_locks := 0, m_write_lock := True\<rparr>))
   \<and> (m_read_locks g \<noteq> 1 \<longrightarrow> lockToWrite g = Inr (False, g))
   \<and> (gate_inv g \<and> m_write_lock g \<longrightarrow> lockToWrite g = Inr (False, g))"
  by (auto simp: lockToWrite_def ASSERT_def gate_inv_def)

theorem lockToWrite_succeeds_iff_witness:
  "lockToWrite \<lparr>m_write_lock = False, m_read_locks = 1\<rparr>
       = Inr (True, \<lparr>m_write_lock = True, m_read_locks = 0\<rparr>)
   \<and> lockToWrite \<lparr>m_write_lock = False, m_read_locks = 0\<rparr>
       = Inr (False, \<lparr>m_write_lock = False, m_read_locks = 0\<rparr>)
   \<and> lockToWrite \<lparr>m_write_lock = False, m_read_locks = 2\<rparr>
       = Inr (False, \<lparr>m_write_lock = False, m_read_locks = 2\<rparr>)
   \<and> gate_inv \<lparr>m_write_lock = True, m_read_locks = 0\<rparr>
   \<and> lockToWrite \<lparr>m_write_lock = True, m_read_locks = 0\<rparr>
       = Inr (False, \<lparr>m_write_lock = True, m_read_locks = 0\<rparr>)"
proof -
  have c: "gate_inv \<lparr>m_write_lock = True, m_read_locks = 0\<rparr>"
    by (simp add: gate_inv_def)
  show ?thesis
    using c
      lockToWrite_succeeds_iff [of "\<lparr>m_write_lock = False, m_read_locks = 1\<rparr>"]
      lockToWrite_succeeds_iff [of "\<lparr>m_write_lock = False, m_read_locks = 0\<rparr>"]
      lockToWrite_succeeds_iff [of "\<lparr>m_write_lock = False, m_read_locks = 2\<rparr>"]
      lockToWrite_succeeds_iff [of "\<lparr>m_write_lock = True, m_read_locks = 0\<rparr>"]
    by simp
qed

text \<open>
  C4. Whenever \<^verbatim>\<open>lockToWrite\<close> returns true, \<^verbatim>\<open>unlockToRead\<close> called right
  after it passes its assertions and gives back the state before the promotion, which had
  one reader and no writer.
\<close>

theorem lockToWrite_then_unlockToRead:
  assumes "lockToWrite g = Inr (True, g')"
  shows "unlockToRead g' = Inr g \<and> m_read_locks g = 1 \<and> \<not> m_write_lock g"
  using assms
  by (auto simp: lockToWrite_def unlockToRead_def ASSERT_def split: if_splits)

theorem lockToWrite_then_unlockToRead_witness:
  "lockToWrite \<lparr>m_write_lock = False, m_read_locks = 1\<rparr>
     = Inr (True, \<lparr>m_write_lock = True, m_read_locks = 0\<rparr>)
   \<and> unlockToRead \<lparr>m_write_lock = True, m_read_locks = 0\<rparr>
     = Inr \<lparr>m_write_lock = False, m_read_locks = 1\<rparr>"
proof -
  have h: "lockToWrite \<lparr>m_write_lock = False, m_read_locks = 1\<rparr>
             = Inr (True, \<lparr>m_write_lock = True, m_read_locks = 0\<rparr>)"
    by (simp add: lockToWrite_def ASSERT_def)
  show ?thesis using h lockToWrite_then_unlockToRead [OF h] by simp
qed

text \<open>
  C5. \<^verbatim>\<open>unlock\<close> takes no argument and goes by the state. With a positive reader
  count, in a state of the gate (the invariant holds, so no writer is active), it takes
  one from the count and changes nothing else; with the writer flag set it clears the flag
  and changes nothing else; with no reader and no writer it runs into
  \<^verbatim>\<open>ASSERT(false)\<close>: the call fails there, it does not return as if nothing had happened.
\<close>

theorem unlock_cases:
  "(m_read_locks g > 0 \<and> gate_inv g \<longrightarrow> unlock g = Inr (g\<lparr>m_read_locks := m_read_locks g - 1\<rparr>))
   \<and> (m_read_locks g > 0 \<and> \<not> m_write_lock g \<longrightarrow>
        unlock g = Inr (g\<lparr>m_read_locks := m_read_locks g - 1\<rparr>))
   \<and> (m_write_lock g \<longrightarrow> unlock g = Inr (g\<lparr>m_write_lock := False\<rparr>))
   \<and> (m_read_locks g = 0 \<and> \<not> m_write_lock g \<longrightarrow> unlock g = Inl AssertionFailed)"
  by (auto simp: unlock_def ASSERT_def gate_inv_def)

theorem unlock_cases_witness:
  "gate_inv \<lparr>m_write_lock = False, m_read_locks = 3\<rparr>
   \<and> unlock \<lparr>m_write_lock = False, m_read_locks = 3\<rparr> = Inr \<lparr>m_write_lock = False, m_read_locks = 2\<rparr>
   \<and> unlock \<lparr>m_write_lock = True, m_read_locks = 0\<rparr> = Inr \<lparr>m_write_lock = False, m_read_locks = 0\<rparr>
   \<and> unlock fresh = Inl AssertionFailed"
proof -
  have a: "gate_inv \<lparr>m_write_lock = False, m_read_locks = 3\<rparr>"
    by (simp add: gate_inv_def)
  show ?thesis
    using a
      unlock_cases [of "\<lparr>m_write_lock = False, m_read_locks = 3\<rparr>"]
      unlock_cases [of "\<lparr>m_write_lock = True, m_read_locks = 0\<rparr>"]
      unlock_cases [of fresh]
    by (simp add: fresh_def)
qed

section \<open>Properties of the views\<close>

text \<open>
  Reading a 32-bit word as a signed number, and back: inside the range of an \<^verbatim>\<open>int\<close>
  nothing is lost.
\<close>

lemma sint_of_int_32:
  "- 2147483648 \<le> k \<Longrightarrow> k < 2147483648 \<Longrightarrow> sint (of_int k :: 32 word) = k"
  by (simp add: sint_sbintrunc' signed_take_bit_int_eq_self)

lemma sint_bounds_32: "- 2147483648 \<le> sint (a :: 32 word) \<and> sint a < 2147483648"
  using sint_ge [of a] sint_lt [of a] by simp

lemma sint_add_of_int:
  assumes "- 2147483648 \<le> sint (a :: 32 word) + k" and "sint a + k < 2147483648"
  shows "sint (a + of_int k) = sint a + k"
proof -
  have "a + of_int k = of_int (sint a + k)" by simp
  then show ?thesis using sint_of_int_32 [OF assms] by simp
qed

lemma of_int_eq_iff_32:
  "- 2147483648 \<le> k \<Longrightarrow> k < 2147483648 \<Longrightarrow> (of_int k :: 32 word) = a \<longleftrightarrow> k = sint a"
  using sint_of_int_32 [of k] by auto

lemma incr_mid:
  "px + 1 \<noteq> rect_x b + rect_w b \<Longrightarrow> incr (iterator im b px py) = iterator im b (px + 1) py"
  by (simp add: incr_def iterator_def)

lemma incr_last:
  "px + 1 = rect_x b + rect_w b \<Longrightarrow> incr (iterator im b px py) = iterator im b (rect_x b) (py + 1)"
  by (simp add: incr_def iterator_def)

lemma iterator_eq_iff:
  "iterator im b px py = iterator im b qx qy \<longleftrightarrow> px = qx \<and> py = qy"
  by (auto simp: iterator_def)

lemma deref_iterator: "deref (iterator im b px py) = (sint px, sint py)"
  by (simp add: deref_def iterator_def)

lemma iterate_step:
  "it \<noteq> stop \<Longrightarrow> iterate it stop acc = iterate (incr it) stop (acc @ [deref it])"
  by (subst iterate.simps) simp

lemma iterate_stop: "iterate stop stop acc = Some acc"
  by (subst iterate.simps) simp

lemma iterate_extends:
  assumes "iterate it stop acc = Some ys"
  shows "length acc \<le> length ys"
proof (rule iterate.raw_induct [where P = "\<lambda>it stop acc ys. length acc \<le> length ys"])
  show "iterate it stop acc = Some ys" by (rule assms)
next
  fix f :: "ImageIterator \<Rightarrow> ImageIterator \<Rightarrow> (int \<times> int) list \<Rightarrow> (int \<times> int) list option"
    and it stop visited ys
  assume IH: "\<And>it stop visited ys. f it stop visited = Some ys \<Longrightarrow> length visited \<le> length ys"
    and run: "(if it = stop then Some visited else f (incr it) stop (visited @ [deref it])) = Some ys"
  show "length visited \<le> length ys"
  proof (cases "it = stop")
    case True
    with run show ?thesis by simp
  next
    case False
    with run have "f (incr it) stop (visited @ [deref it]) = Some ys" by simp
    from IH [OF this] show ?thesis by simp
  qed
qed

text \<open>
  Within row \<open>j\<close>, from column \<open>i\<close>: the loop visits the rest of the row and arrives at
  the start of row \<open>j + 1\<close>.
\<close>

lemma iterate_row:
  assumes i: "0 \<le> i" "i < sint (rect_w b)" and j: "0 \<le> j" "j < sint (rect_h b)"
    and fx: "sint (rect_x b + rect_w b) = sint (rect_x b) + sint (rect_w b)"
    and fy: "sint (rect_y b + rect_h b) = sint (rect_y b) + sint (rect_h b)"
  shows "iterate (iterator im b (rect_x b + of_int i) (rect_y b + of_int j))
           (iterator im b (rect_x b) (rect_y b + rect_h b)) acc
       = iterate (iterator im b (rect_x b) (rect_y b + of_int (j + 1)))
           (iterator im b (rect_x b) (rect_y b + rect_h b))
           (acc @ map (\<lambda>i. (sint (rect_x b) + i, sint (rect_y b) + j)) [i..sint (rect_w b) - 1])"
  using i
proof (induction "nat (sint (rect_w b) - i)" arbitrary: i acc)
  case 0
  then show ?case by simp
next
  case (Suc n)
  let ?stop = "iterator im b (rect_x b) (rect_y b + rect_h b)"
  have bw: "sint (rect_w b) < 2147483648" and bh: "sint (rect_h b) < 2147483648"
    using sint_bounds_32 by auto
  have sx: "sint (rect_x b) + sint (rect_w b) < 2147483648"
    using sint_bounds_32 [of "rect_x b + rect_w b"] fx by simp
  have sy: "sint (rect_y b) + sint (rect_h b) < 2147483648"
    using sint_bounds_32 [of "rect_y b + rect_h b"] fy by simp
  have "(of_int j :: 32 word) \<noteq> rect_h b"
    using of_int_eq_iff_32 [of j "rect_h b"] j bh by simp
  then have ne: "iterator im b (rect_x b + of_int i) (rect_y b + of_int j) \<noteq> ?stop"
    by (simp add: iterator_eq_iff)
  have dx: "sint (rect_x b + of_int i) = sint (rect_x b) + i"
    using sint_add_of_int [of "rect_x b" i] sint_bounds_32 [of "rect_x b"] Suc.prems sx by simp
  have dy: "sint (rect_y b + of_int j) = sint (rect_y b) + j"
    using sint_add_of_int [of "rect_y b" j] sint_bounds_32 [of "rect_y b"] j sy by simp
  have last_iff: "rect_x b + of_int i + 1 = rect_x b + rect_w b \<longleftrightarrow> i + 1 = sint (rect_w b)"
  proof -
    have "rect_x b + of_int i + 1 = rect_x b + of_int (i + 1)" by simp
    then have "rect_x b + of_int i + 1 = rect_x b + rect_w b
                 \<longleftrightarrow> (of_int (i + 1) :: 32 word) = rect_w b"
      by (simp only: add_left_cancel)
    then show ?thesis
      using of_int_eq_iff_32 [of "i + 1" "rect_w b"] Suc.prems bw by simp
  qed
  have step: "iterate (iterator im b (rect_x b + of_int i) (rect_y b + of_int j)) ?stop acc
        = iterate (incr (iterator im b (rect_x b + of_int i) (rect_y b + of_int j))) ?stop
            (acc @ [(sint (rect_x b) + i, sint (rect_y b) + j)])"
    using iterate_step [OF ne, of acc] by (simp add: deref_iterator dx dy)
  show ?case
  proof (cases "i + 1 = sint (rect_w b)")
    case True
    then have "sint (rect_w b) - 1 = i" by simp
    then have up: "[i..sint (rect_w b) - 1] = [i]" by simp
    from True last_iff
    have "rect_x b + of_int i + 1 = rect_x b + rect_w b" by simp
    then have "incr (iterator im b (rect_x b + of_int i) (rect_y b + of_int j))
            = iterator im b (rect_x b) (rect_y b + of_int j + 1)"
      by (rule incr_last)
    also have "rect_y b + of_int j + 1 = rect_y b + of_int (j + 1)" by simp
    finally show ?thesis using step up by simp
  next
    case False
    with Suc.prems have lt: "i + 1 < sint (rect_w b)" by simp
    from False last_iff
    have "rect_x b + of_int i + 1 \<noteq> rect_x b + rect_w b" by simp
    then have "incr (iterator im b (rect_x b + of_int i) (rect_y b + of_int j))
            = iterator im b (rect_x b + of_int i + 1) (rect_y b + of_int j)"
      by (rule incr_mid)
    also have "rect_x b + of_int i + 1 = rect_x b + of_int (i + 1)" by simp
    finally have st: "incr (iterator im b (rect_x b + of_int i) (rect_y b + of_int j))
            = iterator im b (rect_x b + of_int (i + 1)) (rect_y b + of_int j)" .
    have up: "[i..sint (rect_w b) - 1] = i # [i + 1..sint (rect_w b) - 1]"
      using lt by (simp add: upto_rec1)
    have n: "n = nat (sint (rect_w b) - (i + 1))" using Suc.hyps(2) by simp
    have i1: "0 \<le> i + 1" using Suc.prems by simp
    show ?thesis
      unfolding step st Suc.hyps(1) [OF n i1 lt] up by simp
  qed
qed

text \<open>From the start of row \<open>j\<close>: the loop visits rows \<open>j\<close> to \<open>h - 1\<close> and stops.\<close>

lemma iterate_rows:
  assumes j: "0 \<le> j" "j \<le> sint (rect_h b)"
    and shape: "0 < sint (rect_w b) \<or> sint (rect_h b) = 0"
    and fx: "sint (rect_x b + rect_w b) = sint (rect_x b) + sint (rect_w b)"
    and fy: "sint (rect_y b + rect_h b) = sint (rect_y b) + sint (rect_h b)"
  shows "iterate (iterator im b (rect_x b) (rect_y b + of_int j))
           (iterator im b (rect_x b) (rect_y b + rect_h b)) acc
       = Some (acc @ concat (map (row_of b) [j..sint (rect_h b) - 1]))"
  using j
proof (induction "nat (sint (rect_h b) - j)" arbitrary: j acc)
  case 0
  then have "j = sint (rect_h b)" by simp
  then show ?case by (simp add: iterate_stop)
next
  case (Suc n)
  then have lt: "j < sint (rect_h b)" by simp
  with Suc.prems shape have w: "0 < sint (rect_w b)" by auto
  have n: "n = nat (sint (rect_h b) - (j + 1))" using Suc.hyps(2) by simp
  have up: "[j..sint (rect_h b) - 1] = j # [j + 1..sint (rect_h b) - 1]"
    using lt by (simp add: upto_rec1)
  have j1: "0 \<le> j + 1" "j + 1 \<le> sint (rect_h b)" using Suc.prems lt by simp_all
  have "iterate (iterator im b (rect_x b) (rect_y b + of_int j))
           (iterator im b (rect_x b) (rect_y b + rect_h b)) acc
      = iterate (iterator im b (rect_x b) (rect_y b + of_int (j + 1)))
           (iterator im b (rect_x b) (rect_y b + rect_h b)) (acc @ row_of b j)"
    using iterate_row [of 0 b j im acc, OF _ w Suc.prems(1) lt fx fy] by (simp add: row_of_def)
  also have "\<dots> = Some ((acc @ row_of b j) @ concat (map (row_of b) [j + 1..sint (rect_h b) - 1]))"
    by (rule Suc.hyps(1) [OF n j1])
  finally show ?case using up by simp
qed

lemma ImageBits_end_eq:
  "ImageBits_end bits =
     iterator (m_image bits) (m_bounds bits) (rect_x (m_bounds bits))
       (rect_y (m_bounds bits) + rect_h (m_bounds bits))"
  by (simp add: ImageBits_end_def incr_last)

text \<open>
  The loop from \<^verbatim>\<open>begin()\<close> to \<^verbatim>\<open>end()\<close> over a rectangle that has no row, or at
  least one row and one column, and whose two sums do not wrap around.
\<close>

lemma iterate_begin_end:
  assumes "sint (rect_h (m_bounds bits)) = 0
           \<or> 0 < sint (rect_w (m_bounds bits)) \<and> 0 < sint (rect_h (m_bounds bits))"
    and "sint (rect_x (m_bounds bits) + rect_w (m_bounds bits))
           = sint (rect_x (m_bounds bits)) + sint (rect_w (m_bounds bits))"
    and "sint (rect_y (m_bounds bits) + rect_h (m_bounds bits))
           = sint (rect_y (m_bounds bits)) + sint (rect_h (m_bounds bits))"
  shows "iterate (ImageBits_begin bits) (ImageBits_end bits) [] = Some (row_major (m_bounds bits))"
proof -
  have h: "0 \<le> sint (rect_h (m_bounds bits))"
    and s: "0 < sint (rect_w (m_bounds bits)) \<or> sint (rect_h (m_bounds bits)) = 0"
    using assms(1) by auto
  show ?thesis
    using iterate_rows [of 0 "m_bounds bits" "m_image bits" "[]", OF _ h s assms(2,3)]
    by (simp add: ImageBits_begin_def ImageBits_end_eq row_major_def)
qed

lemma length_row_major:
  assumes "sint (rect_h r) = 0 \<or> 0 < sint (rect_w r) \<and> 0 < sint (rect_h r)"
  shows "length (row_major r) = nat (sint (rect_w r) * sint (rect_h r))"
  using assms
proof
  assume "sint (rect_h r) = 0"
  then show ?thesis by (simp add: row_major_def)
next
  assume "0 < sint (rect_w r) \<and> 0 < sint (rect_h r)"
  then show ?thesis
    by (simp add: row_major_def row_of_def length_concat comp_def sum_list_triv
          nat_mult_distrib mult.commute)
qed

lemma row_major_inside:
  assumes "0 \<le> sint (rect_x r)" "sint (rect_x r) + sint (rect_w r) \<le> sint (width img)"
    and "0 \<le> sint (rect_y r)" "sint (rect_y r) + sint (rect_h r) \<le> sint (height img)"
    and "(px, py) \<in> set (row_major r)"
  shows "0 \<le> px \<and> px < sint (width img) \<and> 0 \<le> py \<and> py < sint (height img)"
  using assms by (auto simp: row_major_def row_of_def)

lemma ImageBits_ctor_Inr:
  "ImageBits_ctor img r = Inr bits \<longleftrightarrow>
     bits = \<lparr>m_image = Some img, m_bounds = r\<rparr> \<and>
     0 \<le> sint (rect_x r) \<and> sint (rect_x r + rect_w r) \<le> sint (width img) \<and>
     0 \<le> sint (rect_y r) \<and> sint (rect_y r + rect_h r) \<le> sint (height img)"
  by (auto simp: ImageBits_ctor_def ASSERT_def)

lemma begin_neq_end_rows:
  assumes "ImageBits_begin bits \<noteq> ImageBits_end bits"
  shows "sint (rect_h (m_bounds bits)) \<noteq> 0"
proof
  assume "sint (rect_h (m_bounds bits)) = 0"
  then have "of_int (sint (rect_h (m_bounds bits))) = (0 :: int32)" by simp
  then have "rect_h (m_bounds bits) = 0" by simp
  with assms show False by (simp add: ImageBits_begin_def ImageBits_end_eq)
qed

text \<open>
  C6 (as the code has it). The constructor's assertion compares C++ \<^verbatim>\<open>int\<close>s. Every
  rectangle with a negative origin fails at it, and so does every rectangle that reaches
  past the image's width or height when the sum that reaches past does not wrap around:
  no view comes back, so no iterator can be asked of it. For a view that the constructor
  returns, over a rectangle whose sums do not wrap around and that has no row, or at least
  one row and one column: the loop from \<^verbatim>\<open>begin()\<close> to \<^verbatim>\<open>end()\<close> comes to its end and
  every element it stands on lies inside the image, and \<^verbatim>\<open>begin()\<close> itself stands
  inside the image unless it is \<^verbatim>\<open>end()\<close>.
\<close>

theorem ImageBits_ctor_bounds:
  "((sint (rect_x r) < 0 \<or> sint (rect_y r) < 0 \<or>
     sint (rect_x r + rect_w r) = sint (rect_x r) + sint (rect_w r) \<and>
       sint (rect_x r) + sint (rect_w r) > sint (width img) \<or>
     sint (rect_y r + rect_h r) = sint (rect_y r) + sint (rect_h r) \<and>
       sint (rect_y r) + sint (rect_h r) > sint (height img))
      \<longrightarrow> ImageBits_ctor img r = Inl AssertionFailed)
   \<and> (\<forall>bits. ImageBits_ctor img r = Inr bits \<and>
         sint (rect_x r + rect_w r) = sint (rect_x r) + sint (rect_w r) \<and>
         sint (rect_y r + rect_h r) = sint (rect_y r) + sint (rect_h r) \<and>
         (sint (rect_h r) = 0 \<or> 0 < sint (rect_w r) \<and> 0 < sint (rect_h r))
       \<longrightarrow> (\<exists>vs. iterate (ImageBits_begin bits) (ImageBits_end bits) [] = Some vs \<and>
                 (\<forall>(px, py) \<in> set vs.
                    0 \<le> px \<and> px < sint (width img) \<and> 0 \<le> py \<and> py < sint (height img)))
           \<and> (ImageBits_begin bits \<noteq> ImageBits_end bits \<longrightarrow>
                 0 \<le> fst (deref (ImageBits_begin bits)) \<and>
                 fst (deref (ImageBits_begin bits)) < sint (width img) \<and>
                 0 \<le> snd (deref (ImageBits_begin bits)) \<and>
                 snd (deref (ImageBits_begin bits)) < sint (height img)))"
proof (intro conjI impI allI)
  assume "sint (rect_x r) < 0 \<or> sint (rect_y r) < 0 \<or>
     sint (rect_x r + rect_w r) = sint (rect_x r) + sint (rect_w r) \<and>
       sint (rect_x r) + sint (rect_w r) > sint (width img) \<or>
     sint (rect_y r + rect_h r) = sint (rect_y r) + sint (rect_h r) \<and>
       sint (rect_y r) + sint (rect_h r) > sint (height img)"
  then show "ImageBits_ctor img r = Inl AssertionFailed"
    by (auto simp: ImageBits_ctor_def ASSERT_def)
next
  fix bits
  assume a: "ImageBits_ctor img r = Inr bits \<and>
         sint (rect_x r + rect_w r) = sint (rect_x r) + sint (rect_w r) \<and>
         sint (rect_y r + rect_h r) = sint (rect_y r) + sint (rect_h r) \<and>
         (sint (rect_h r) = 0 \<or> 0 < sint (rect_w r) \<and> 0 < sint (rect_h r))"
  then have b: "m_bounds bits = r"
    and c: "0 \<le> sint (rect_x r)" "sint (rect_x r) + sint (rect_w r) \<le> sint (width img)"
           "0 \<le> sint (rect_y r)" "sint (rect_y r) + sint (rect_h r) \<le> sint (height img)"
    by (auto simp: ImageBits_ctor_Inr)
  have run: "iterate (ImageBits_begin bits) (ImageBits_end bits) [] = Some (row_major r)"
    using iterate_begin_end [of bits] a by (simp add: b)
  have "\<forall>(px, py) \<in> set (row_major r).
          0 \<le> px \<and> px < sint (width img) \<and> 0 \<le> py \<and> py < sint (height img)"
    using row_major_inside [OF c] by blast
  with run
  show "\<exists>vs. iterate (ImageBits_begin bits) (ImageBits_end bits) [] = Some vs \<and>
          (\<forall>(px, py) \<in> set vs.
             0 \<le> px \<and> px < sint (width img) \<and> 0 \<le> py \<and> py < sint (height img))"
    by blast
  assume "ImageBits_begin bits \<noteq> ImageBits_end bits"
  then have "sint (rect_h r) \<noteq> 0" using begin_neq_end_rows [of bits] by (simp add: b)
  with a have pos: "0 < sint (rect_w r)" "0 < sint (rect_h r)" by auto
  have d: "deref (ImageBits_begin bits) = (sint (rect_x r), sint (rect_y r))"
    by (simp add: ImageBits_begin_def deref_iterator b)
  show "0 \<le> fst (deref (ImageBits_begin bits))"
    and "fst (deref (ImageBits_begin bits)) < sint (width img)"
    and "0 \<le> snd (deref (ImageBits_begin bits))"
    and "snd (deref (ImageBits_begin bits)) < sint (height img)"
    using c pos by (simp_all add: d)
qed

theorem ImageBits_ctor_bounds_witness:
  "ImageBits_ctor image_5x3 \<lparr>rect_x = 4, rect_y = 0, rect_w = 3, rect_h = 1\<rparr>
     = Inl AssertionFailed
   \<and> ImageBits_ctor image_5x3 \<lparr>rect_x = - 1, rect_y = 0, rect_w = 2, rect_h = 1\<rparr>
     = Inl AssertionFailed
   \<and> ImageBits_ctor image_5x3 \<lparr>rect_x = 2, rect_y = 1, rect_w = 3, rect_h = 2\<rparr>
     = Inr \<lparr>m_image = Some image_5x3,
            m_bounds = \<lparr>rect_x = 2, rect_y = 1, rect_w = 3, rect_h = 2\<rparr>\<rparr>
   \<and> (\<exists>vs. iterate
         (ImageBits_begin \<lparr>m_image = Some image_5x3,
                            m_bounds = \<lparr>rect_x = 2, rect_y = 1, rect_w = 3, rect_h = 2\<rparr>\<rparr>)
         (ImageBits_end \<lparr>m_image = Some image_5x3,
                          m_bounds = \<lparr>rect_x = 2, rect_y = 1, rect_w = 3, rect_h = 2\<rparr>\<rparr>) []
          = Some vs
        \<and> (\<forall>(px, py) \<in> set vs. 0 \<le> px \<and> px < 5 \<and> 0 \<le> py \<and> py < 3))
   \<and> deref (ImageBits_begin \<lparr>m_image = Some image_5x3,
                               m_bounds = \<lparr>rect_x = 2, rect_y = 1, rect_w = 3, rect_h = 2\<rparr>\<rparr>)
       = (2, 1)"
proof -
  let ?R = "\<lparr>rect_x = 2, rect_y = 1, rect_w = 3, rect_h = 2\<rparr> :: Rect"
  let ?V = "\<lparr>m_image = Some image_5x3, m_bounds = ?R\<rparr>"
  have ok: "ImageBits_ctor image_5x3 ?R = Inr ?V"
    by (simp add: ImageBits_ctor_def ASSERT_def image_5x3_def)
  have ne: "ImageBits_begin ?V \<noteq> ImageBits_end ?V"
    by (simp add: ImageBits_begin_def ImageBits_end_eq iterator_eq_iff)
  have d: "deref (ImageBits_begin ?V) = (2, 1)"
    by (simp add: ImageBits_begin_def deref_iterator)
  show ?thesis
    using ok ne d
      ImageBits_ctor_bounds [of "\<lparr>rect_x = 4, rect_y = 0, rect_w = 3, rect_h = 1\<rparr>" "image_5x3"]
      ImageBits_ctor_bounds [of "\<lparr>rect_x = - 1, rect_y = 0, rect_w = 2, rect_h = 1\<rparr>" "image_5x3"]
      ImageBits_ctor_bounds [of ?R "image_5x3"]
    by (simp add: image_5x3_def)
qed

theorem ImageBits_ctor_bounds_counterexample:
  "ImageBits_ctor image_5x3 \<lparr>rect_x = 5, rect_y = 0, rect_w = 0, rect_h = 1\<rparr>
     = Inr \<lparr>m_image = Some image_5x3,
            m_bounds = \<lparr>rect_x = 5, rect_y = 0, rect_w = 0, rect_h = 1\<rparr>\<rparr>
   \<and> deref (ImageBits_begin \<lparr>m_image = Some image_5x3,
                               m_bounds = \<lparr>rect_x = 5, rect_y = 0, rect_w = 0, rect_h = 1\<rparr>\<rparr>)
       = (5, 0)
   \<and> sint (width image_5x3) = 5
   \<and> ImageBits_begin \<lparr>m_image = Some image_5x3,
                        m_bounds = \<lparr>rect_x = 5, rect_y = 0, rect_w = 0, rect_h = 1\<rparr>\<rparr>
       \<noteq> ImageBits_end \<lparr>m_image = Some image_5x3,
                          m_bounds = \<lparr>rect_x = 5, rect_y = 0, rect_w = 0, rect_h = 1\<rparr>\<rparr>
   \<and> iterate
       (ImageBits_begin \<lparr>m_image = Some image_5x3,
                          m_bounds = \<lparr>rect_x = 5, rect_y = 0, rect_w = 0, rect_h = 1\<rparr>\<rparr>)
       (ImageBits_end \<lparr>m_image = Some image_5x3,
                        m_bounds = \<lparr>rect_x = 5, rect_y = 0, rect_w = 0, rect_h = 1\<rparr>\<rparr>) []
     = iterate
         (iterator (Some image_5x3) \<lparr>rect_x = 5, rect_y = 0, rect_w = 0, rect_h = 1\<rparr> 6 0)
         (ImageBits_end \<lparr>m_image = Some image_5x3,
                          m_bounds = \<lparr>rect_x = 5, rect_y = 0, rect_w = 0, rect_h = 1\<rparr>\<rparr>)
         [(5, 0)]
   \<and> ImageBits_ctor image_5x3 \<lparr>rect_x = 2147483647, rect_y = 0, rect_w = 1, rect_h = 1\<rparr>
     = Inr \<lparr>m_image = Some image_5x3,
            m_bounds = \<lparr>rect_x = 2147483647, rect_y = 0, rect_w = 1, rect_h = 1\<rparr>\<rparr>
   \<and> sint (2147483647 :: int32) + sint (1 :: int32) > sint (width image_5x3)
   \<and> deref (ImageBits_begin \<lparr>m_image = Some image_5x3,
         m_bounds = \<lparr>rect_x = 2147483647, rect_y = 0, rect_w = 1, rect_h = 1\<rparr>\<rparr>)
       = (2147483647, 0)
   \<and> ImageBits_ctor image_5x3 \<lparr>rect_x = 6, rect_y = 0, rect_w = - 1, rect_h = 1\<rparr>
     = Inr \<lparr>m_image = Some image_5x3,
            m_bounds = \<lparr>rect_x = 6, rect_y = 0, rect_w = - 1, rect_h = 1\<rparr>\<rparr>
   \<and> deref (ImageBits_begin \<lparr>m_image = Some image_5x3,
         m_bounds = \<lparr>rect_x = 6, rect_y = 0, rect_w = - 1, rect_h = 1\<rparr>\<rparr>)
       = (6, 0)"
proof -
  let ?R = "\<lparr>rect_x = 5, rect_y = 0, rect_w = 0, rect_h = 1\<rparr> :: Rect"
  let ?V = "\<lparr>m_image = Some image_5x3, m_bounds = ?R\<rparr>"
  have ne: "ImageBits_begin ?V \<noteq> ImageBits_end ?V"
    by (simp add: ImageBits_begin_def ImageBits_end_eq iterator_eq_iff)
  have d: "deref (ImageBits_begin ?V) = (5, 0)"
    by (simp add: ImageBits_begin_def deref_iterator)
  have i: "incr (ImageBits_begin ?V) = iterator (Some image_5x3) ?R 6 0"
    by (simp add: ImageBits_begin_def incr_def iterator_def)
  have "iterate (ImageBits_begin ?V) (ImageBits_end ?V) []
          = iterate (iterator (Some image_5x3) ?R 6 0) (ImageBits_end ?V) [(5, 0)]"
    using iterate_step [OF ne, of "[]"] by (simp add: d i)
  with ne d show ?thesis
    by (simp add: ImageBits_ctor_def ASSERT_def image_5x3_def ImageBits_begin_def deref_iterator)
qed

text \<open>
  C7 (as the code has it). For a view that the constructor returned, over a rectangle
  \<open>(x, y, w, h)\<close> contained in the image, that has no row, or at least one row and one
  column: the loop from \<^verbatim>\<open>begin()\<close> to \<^verbatim>\<open>end()\<close> comes to its end and visits exactly the
  \<open>w * h\<close> elements of the rectangle in row-major order: \<open>(x, y)\<close>, ..., \<open>(x + w - 1, y)\<close>,
  then \<open>(x, y + 1)\<close>, and so on through row \<open>y + h - 1\<close>. A second loop from \<^verbatim>\<open>begin()\<close>
  visits the same sequence again.
\<close>

theorem iterate_visits_row_major:
  assumes "ImageBits_ctor img r = Inr bits"
    and "0 \<le> sint (rect_x r)" and "sint (rect_x r) + sint (rect_w r) \<le> sint (width img)"
    and "0 \<le> sint (rect_y r)" and "sint (rect_y r) + sint (rect_h r) \<le> sint (height img)"
    and "sint (rect_h r) = 0 \<or> 0 < sint (rect_w r) \<and> 0 < sint (rect_h r)"
  shows "iterate (ImageBits_begin bits) (ImageBits_end bits) [] = Some (row_major r)
       \<and> length (row_major r) = nat (sint (rect_w r) * sint (rect_h r))
       \<and> row_major r =
           concat (map (\<lambda>j. map (\<lambda>i. (sint (rect_x r) + i, sint (rect_y r) + j))
                                [0..sint (rect_w r) - 1])
                       [0..sint (rect_h r) - 1])
       \<and> iterate_twice bits = Some (row_major r, row_major r)"
proof -
  from assms(1) have b: "m_bounds bits = r" by (simp add: ImageBits_ctor_Inr)
  have fx: "sint (rect_x r + rect_w r) = sint (rect_x r) + sint (rect_w r)"
    using assms(2,3) sint_bounds_32 [of "rect_w r"] sint_bounds_32 [of "width img"]
      sint_add_of_int [of "rect_x r" "sint (rect_w r)"] by simp
  have fy: "sint (rect_y r + rect_h r) = sint (rect_y r) + sint (rect_h r)"
    using assms(4,5) sint_bounds_32 [of "rect_h r"] sint_bounds_32 [of "height img"]
      sint_add_of_int [of "rect_y r" "sint (rect_h r)"] by simp
  have run: "iterate (ImageBits_begin bits) (ImageBits_end bits) [] = Some (row_major r)"
    using iterate_begin_end [of bits] assms(6) fx fy by (simp add: b)
  moreover have "length (row_major r) = nat (sint (rect_w r) * sint (rect_h r))"
    using assms(6) by (rule length_row_major)
  moreover have "row_major r =
      concat (map (\<lambda>j. map (\<lambda>i. (sint (rect_x r) + i, sint (rect_y r) + j))
                           [0..sint (rect_w r) - 1])
                  [0..sint (rect_h r) - 1])"
    by (simp add: row_major_def row_of_def [abs_def])
  moreover have "iterate_twice bits = Some (row_major r, row_major r)"
    by (simp add: iterate_twice_def run)
  ultimately show ?thesis by simp
qed

theorem iterate_visits_row_major_witness:
  "ImageBits_ctor image_5x3 \<lparr>rect_x = 2, rect_y = 1, rect_w = 3, rect_h = 2\<rparr>
     = Inr \<lparr>m_image = Some image_5x3,
            m_bounds = \<lparr>rect_x = 2, rect_y = 1, rect_w = 3, rect_h = 2\<rparr>\<rparr>
   \<and> iterate
       (ImageBits_begin \<lparr>m_image = Some image_5x3,
                          m_bounds = \<lparr>rect_x = 2, rect_y = 1, rect_w = 3, rect_h = 2\<rparr>\<rparr>)
       (ImageBits_end \<lparr>m_image = Some image_5x3,
                        m_bounds = \<lparr>rect_x = 2, rect_y = 1, rect_w = 3, rect_h = 2\<rparr>\<rparr>) []
     = Some [(2, 1), (3, 1), (4, 1), (2, 2), (3, 2), (4, 2)]
   \<and> iterate_twice \<lparr>m_image = Some image_5x3,
                     m_bounds = \<lparr>rect_x = 2, rect_y = 1, rect_w = 3, rect_h = 2\<rparr>\<rparr>
     = Some ([(2, 1), (3, 1), (4, 1), (2, 2), (3, 2), (4, 2)],
             [(2, 1), (3, 1), (4, 1), (2, 2), (3, 2), (4, 2)])
   \<and> ImageBits_ctor image_5x3 \<lparr>rect_x = 2, rect_y = 1, rect_w = 3, rect_h = 0\<rparr>
     = Inr \<lparr>m_image = Some image_5x3,
            m_bounds = \<lparr>rect_x = 2, rect_y = 1, rect_w = 3, rect_h = 0\<rparr>\<rparr>
   \<and> iterate
       (ImageBits_begin \<lparr>m_image = Some image_5x3,
                          m_bounds = \<lparr>rect_x = 2, rect_y = 1, rect_w = 3, rect_h = 0\<rparr>\<rparr>)
       (ImageBits_end \<lparr>m_image = Some image_5x3,
                        m_bounds = \<lparr>rect_x = 2, rect_y = 1, rect_w = 3, rect_h = 0\<rparr>\<rparr>) []
     = Some []"
proof -
  let ?R = "\<lparr>rect_x = 2, rect_y = 1, rect_w = 3, rect_h = 2\<rparr> :: Rect"
  let ?E = "\<lparr>rect_x = 2, rect_y = 1, rect_w = 3, rect_h = 0\<rparr> :: Rect"
  have ok: "ImageBits_ctor image_5x3 ?R = Inr \<lparr>m_image = Some image_5x3, m_bounds = ?R\<rparr>"
    by (simp add: ImageBits_ctor_def ASSERT_def image_5x3_def)
  have oke: "ImageBits_ctor image_5x3 ?E = Inr \<lparr>m_image = Some image_5x3, m_bounds = ?E\<rparr>"
    by (simp add: ImageBits_ctor_def ASSERT_def image_5x3_def)
  have rm: "row_major ?R = [(2, 1), (3, 1), (4, 1), (2, 2), (3, 2), (4, 2)]"
    by (simp add: row_major_def row_of_def [abs_def] upto_rec1)
  have rme: "row_major ?E = []"
    by (simp add: row_major_def)
  show ?thesis
    using ok oke iterate_visits_row_major [OF ok] iterate_visits_row_major [OF oke]
    by (simp add: rm rme image_5x3_def)
qed

theorem iterate_visits_row_major_counterexample:
  "ImageBits_ctor image_5x3 \<lparr>rect_x = 2, rect_y = 1, rect_w = 0, rect_h = 1\<rparr>
     = Inr \<lparr>m_image = Some image_5x3,
            m_bounds = \<lparr>rect_x = 2, rect_y = 1, rect_w = 0, rect_h = 1\<rparr>\<rparr>
   \<and> sint (2 :: int32) + sint (0 :: int32) \<le> sint (width image_5x3)
   \<and> sint (1 :: int32) + sint (1 :: int32) \<le> sint (height image_5x3)
   \<and> sint (0 :: int32) * sint (1 :: int32) = 0
   \<and> iterate
       (ImageBits_begin \<lparr>m_image = Some image_5x3,
                          m_bounds = \<lparr>rect_x = 2, rect_y = 1, rect_w = 0, rect_h = 1\<rparr>\<rparr>)
       (ImageBits_end \<lparr>m_image = Some image_5x3,
                        m_bounds = \<lparr>rect_x = 2, rect_y = 1, rect_w = 0, rect_h = 1\<rparr>\<rparr>) []
     \<noteq> Some []
   \<and> iterate
       (ImageBits_begin \<lparr>m_image = Some image_5x3,
                          m_bounds = \<lparr>rect_x = 2, rect_y = 1, rect_w = 0, rect_h = 1\<rparr>\<rparr>)
       (ImageBits_end \<lparr>m_image = Some image_5x3,
                        m_bounds = \<lparr>rect_x = 2, rect_y = 1, rect_w = 0, rect_h = 1\<rparr>\<rparr>) []
     = iterate
         (iterator (Some image_5x3) \<lparr>rect_x = 2, rect_y = 1, rect_w = 0, rect_h = 1\<rparr> 3 1)
         (ImageBits_end \<lparr>m_image = Some image_5x3,
                          m_bounds = \<lparr>rect_x = 2, rect_y = 1, rect_w = 0, rect_h = 1\<rparr>\<rparr>)
         [(2, 1)]
   \<and> ImageBits_ctor image_5x3 \<lparr>rect_x = 2, rect_y = 1, rect_w = 1, rect_h = - 1\<rparr>
     = Inr \<lparr>m_image = Some image_5x3,
            m_bounds = \<lparr>rect_x = 2, rect_y = 1, rect_w = 1, rect_h = - 1\<rparr>\<rparr>
   \<and> sint (2 :: int32) + sint (1 :: int32) \<le> sint (width image_5x3)
   \<and> sint (1 :: int32) + sint (- 1 :: int32) \<le> sint (height image_5x3)
   \<and> sint (1 :: int32) * sint (- 1 :: int32) = - 1
   \<and> ImageBits_begin \<lparr>m_image = Some image_5x3,
                        m_bounds = \<lparr>rect_x = 2, rect_y = 1, rect_w = 1, rect_h = - 1\<rparr>\<rparr>
       \<noteq> ImageBits_end \<lparr>m_image = Some image_5x3,
                          m_bounds = \<lparr>rect_x = 2, rect_y = 1, rect_w = 1, rect_h = - 1\<rparr>\<rparr>"
proof -
  let ?R = "\<lparr>rect_x = 2, rect_y = 1, rect_w = 0, rect_h = 1\<rparr> :: Rect"
  let ?V = "\<lparr>m_image = Some image_5x3, m_bounds = ?R\<rparr>"
  let ?N = "\<lparr>rect_x = 2, rect_y = 1, rect_w = 1, rect_h = - 1\<rparr> :: Rect"
  have nn: "ImageBits_begin \<lparr>m_image = Some image_5x3, m_bounds = ?N\<rparr>
              \<noteq> ImageBits_end \<lparr>m_image = Some image_5x3, m_bounds = ?N\<rparr>"
    by (simp add: ImageBits_begin_def ImageBits_end_eq iterator_eq_iff)
  have ne: "ImageBits_begin ?V \<noteq> ImageBits_end ?V"
    by (simp add: ImageBits_begin_def ImageBits_end_eq iterator_eq_iff)
  have d: "deref (ImageBits_begin ?V) = (2, 1)"
    by (simp add: ImageBits_begin_def deref_iterator)
  have i: "incr (ImageBits_begin ?V) = iterator (Some image_5x3) ?R 3 1"
    by (simp add: ImageBits_begin_def incr_def iterator_def)
  have st: "iterate (ImageBits_begin ?V) (ImageBits_end ?V) []
          = iterate (iterator (Some image_5x3) ?R 3 1) (ImageBits_end ?V) [(2, 1)]"
    using iterate_step [OF ne, of "[]"] by (simp add: d i)
  have "iterate (iterator (Some image_5x3) ?R 3 1) (ImageBits_end ?V) [(2, 1)] \<noteq> Some []"
    using iterate_extends [of "iterator (Some image_5x3) ?R 3 1" "ImageBits_end ?V" "[(2, 1)]" "[]"]
    by auto
  with st nn show ?thesis
    by (simp add: ImageBits_ctor_def ASSERT_def image_5x3_def)
qed

text \<open>
  C8 (as the code has it). \<^verbatim>\<open>unlock\<close> guards on the image pointer: the first call
  hands the view to \<^verbatim>\<open>unlockBits\<close> and sets the pointer to \<^verbatim>\<open>NULL\<close>; a second
  call finds the pointer \<^verbatim>\<open>NULL\<close> and returns having done nothing. It makes no
  assertion, so the second call is not detected: it succeeds, and leaves the view and the
  state as the first call left them, whatever \<^verbatim>\<open>unlockBits\<close> does.
\<close>

theorem ImageBits_unlock_twice:
  assumes "ImageBits_unlock unlockBits bits s = Inr (bits', s')"
  shows "m_image bits' = None \<and> m_bounds bits' = m_bounds bits
       \<and> ImageBits_unlock unlockBits bits' s' = Inr (bits', s')"
  using assms
  by (auto simp: ImageBits_unlock_def split: option.splits sum.splits)

theorem ImageBits_unlock_twice_witness:
  "ImageBits_unlock counting_unlockBits
     \<lparr>m_image = Some image_5x3,
      m_bounds = \<lparr>rect_x = 2, rect_y = 1, rect_w = 3, rect_h = 2\<rparr>\<rparr> 0
     = Inr (\<lparr>m_image = None, m_bounds = \<lparr>rect_x = 2, rect_y = 1, rect_w = 3, rect_h = 2\<rparr>\<rparr>, 1)
   \<and> ImageBits_unlock counting_unlockBits
       \<lparr>m_image = None, m_bounds = \<lparr>rect_x = 2, rect_y = 1, rect_w = 3, rect_h = 2\<rparr>\<rparr> (1::nat)
     = Inr (\<lparr>m_image = None, m_bounds = \<lparr>rect_x = 2, rect_y = 1, rect_w = 3, rect_h = 2\<rparr>\<rparr>, 1)"
proof -
  have h: "ImageBits_unlock counting_unlockBits
     \<lparr>m_image = Some image_5x3,
      m_bounds = \<lparr>rect_x = 2, rect_y = 1, rect_w = 3, rect_h = 2\<rparr>\<rparr> 0
     = Inr (\<lparr>m_image = None, m_bounds = \<lparr>rect_x = 2, rect_y = 1, rect_w = 3, rect_h = 2\<rparr>\<rparr>, 1)"
    by (simp add: ImageBits_unlock_def counting_unlockBits_def)
  show ?thesis using h ImageBits_unlock_twice [OF h] by simp
qed

text \<open>
  The claim as the spec words it fails: unlocking a view a second time is not reported as
  a violated precondition, it returns normally.
\<close>

theorem ImageBits_unlock_twice_counterexample:
  "ImageBits_unlock counting_unlockBits
     \<lparr>m_image = Some image_5x3,
      m_bounds = \<lparr>rect_x = 2, rect_y = 1, rect_w = 3, rect_h = 2\<rparr>\<rparr> 0
     = Inr (\<lparr>m_image = None, m_bounds = \<lparr>rect_x = 2, rect_y = 1, rect_w = 3, rect_h = 2\<rparr>\<rparr>, 1)
   \<and> ImageBits_unlock counting_unlockBits
       \<lparr>m_image = None, m_bounds = \<lparr>rect_x = 2, rect_y = 1, rect_w = 3, rect_h = 2\<rparr>\<rparr> (1::nat)
     \<noteq> Inl AssertionFailed"
  by (simp add: ImageBits_unlock_def counting_unlockBits_def)

section \<open>Properties of duplication and destruction\<close>

lemma cel_content_extend:
  assumes "cel_image c < length S" "stock_below S lm" "\<forall>a<lm. I2 a = I1 a"
  shows "cel_content (S @ ext) I2 c = cel_content S I1 c"
proof (cases "S ! cel_image c")
  case None
  with assms(1) show ?thesis
    by (simp add: cel_content_def Stock_getImage_def nth_append)
next
  case (Some a)
  with assms(1) have "Some a \<in> set S" by (metis nth_mem)
  with assms(2) have "a < lm" by (simp add: stock_below_def)
  with assms(3) have "I2 a = I1 a" by simp
  with Some assms(1) show ?thesis
    by (simp add: cel_content_def Stock_getImage_def nth_append)
qed

lemma layer_content_extend:
  assumes "\<forall>c \<in> set (layer_cels L). cel_image c < length S" "stock_below S lm" "\<forall>a<lm. I2 a = I1 a"
  shows "layer_content (S @ ext) I2 L = layer_content S I1 L"
  using assms(1)
proof (induction L)
  case (LayerImage a n cs)
  then show ?case
    using cel_content_extend [OF _ assms(2,3)] by simp
next
  case (LayerFolder a n ls)
  then show ?case by simp
qed

lemma Image_createCopy_Some:
  "images st a = Some im \<Longrightarrow>
   Image_createCopy a st = Inr (lim st, st\<lparr>lim := lim st + 1, images := (images st)(lim st \<mapsto> im)\<rparr>)"
  by (simp add: Image_createCopy_def alloc_def)

lemma copyCels_Cons:
  assumes "Stock_getImage ss (cel_image c) = Some a" "images st a = Some im"
  shows "copyCels ss (c # rest) dcs dstk st =
         copyCels ss rest (dcs @ [c\<lparr>cel_addr := lim st, cel_image := length dstk\<rparr>])
           (dstk @ [Some (lim st + 1)])
           (st\<lparr>lim := lim st + 2, images := (images st)(lim st + 1 \<mapsto> im)\<rparr>)"
  using assms
  by (simp add: alloc_def ASSERT_def Image_createCopy_def Stock_addImage_def)

lemma copyCels_correct:
  assumes "cels_ok ss st scs" "stock_below dstk (lim st)"
  shows "\<exists>new newstk st'. copyCels ss scs dcs dstk st = Inr (dcs @ new, dstk @ newstk, st')
     \<and> lim st \<le> lim st' \<and> (\<forall>a<lim st. images st' a = images st a)
     \<and> stock_below (dstk @ newstk) (lim st')
     \<and> (\<forall>a. Some a \<in> set newstk \<longrightarrow> lim st \<le> a)
     \<and> cel_addr ` set new \<subseteq> {lim st..<lim st'}
     \<and> (\<forall>c\<in>set new. cel_image c < length (dstk @ newstk))
     \<and> map (cel_content (dstk @ newstk) (images st')) new = map (cel_content ss (images st)) scs"
  using assms
proof (induction scs arbitrary: dcs dstk st)
  case Nil
  show ?case
    using Nil.prems(2) by (intro exI [of _ "[]"] exI [of _ st]) simp
next
  case (Cons c rest)
  from Cons.prems(1) obtain a im where
    a: "Stock_getImage ss (cel_image c) = Some a" "a < lim st" "images st a = Some im"
    by (auto simp: cels_ok_def)
  define c' where "c' = c\<lparr>cel_addr := lim st, cel_image := length dstk\<rparr>"
  define st2 where "st2 = st\<lparr>lim := lim st + 2, images := (images st)(lim st + 1 \<mapsto> im)\<rparr>"
  have step: "copyCels ss (c # rest) dcs dstk st =
              copyCels ss rest (dcs @ [c']) (dstk @ [Some (lim st + 1)]) st2"
    unfolding c'_def st2_def by (rule copyCels_Cons [OF a(1,3)])
  have ok2: "cels_ok ss st2 rest"
    unfolding cels_ok_def
  proof
    fix x assume "x \<in> set rest"
    with Cons.prems(1) obtain b where
      b: "Stock_getImage ss (cel_image x) = Some b" "b < lim st" "images st b \<noteq> None"
      by (auto simp: cels_ok_def)
    then have "b < lim st2" "images st2 b \<noteq> None" by (simp_all add: st2_def)
    with b(1) show "\<exists>a. Stock_getImage ss (cel_image x) = Some a \<and> a < lim st2 \<and> images st2 a \<noteq> None"
      by blast
  qed
  have below2: "stock_below (dstk @ [Some (lim st + 1)]) (lim st2)"
    using Cons.prems(2) by (auto simp: stock_below_def st2_def)
  from Cons.IH [OF ok2 below2, of "dcs @ [c']"] obtain new newstk st' where
    r: "copyCels ss rest (dcs @ [c']) (dstk @ [Some (lim st + 1)]) st2
          = Inr ((dcs @ [c']) @ new, (dstk @ [Some (lim st + 1)]) @ newstk, st')"
    and lim': "lim st2 \<le> lim st'"
    and frame: "\<forall>a<lim st2. images st' a = images st2 a"
    and below': "stock_below ((dstk @ [Some (lim st + 1)]) @ newstk) (lim st')"
    and fresh_stk: "\<forall>a. Some a \<in> set newstk \<longrightarrow> lim st2 \<le> a"
    and fresh_cel: "cel_addr ` set new \<subseteq> {lim st2..<lim st'}"
    and within: "\<forall>c\<in>set new. cel_image c < length ((dstk @ [Some (lim st + 1)]) @ newstk)"
    and content: "map (cel_content ((dstk @ [Some (lim st + 1)]) @ newstk) (images st')) new
                    = map (cel_content ss (images st2)) rest"
    by blast
  have l2: "lim st2 = lim st + 2" by (simp add: st2_def)
  have old: "\<forall>b<lim st. images st2 b = images st b" by (simp add: st2_def)
  have c'_content: "cel_content ((dstk @ [Some (lim st + 1)]) @ newstk) (images st') c'
                      = cel_content ss (images st) c"
  proof -
    have "cel_content ((dstk @ [Some (lim st + 1)]) @ newstk) (images st') c'
            = cel_content (dstk @ [Some (lim st + 1)]) (images st2) c'"
      using below2 frame by (intro cel_content_extend [where lm = "lim st2"]) (simp_all add: c'_def)
    also have "\<dots> = cel_content ss (images st) c"
      using a by (simp add: cel_content_def c'_def Stock_getImage_def st2_def)
    finally show ?thesis .
  qed
  have rest_content: "map (cel_content ss (images st2)) rest = map (cel_content ss (images st)) rest"
  proof (rule map_cong [OF refl])
    fix x assume "x \<in> set rest"
    with Cons.prems(1) obtain b where "Stock_getImage ss (cel_image x) = Some b" "b < lim st"
      by (auto simp: cels_ok_def)
    then show "cel_content ss (images st2) x = cel_content ss (images st) x"
      by (simp add: cel_content_def st2_def)
  qed
  show ?case
  proof (intro exI [of _ "c' # new"] exI [of _ "Some (lim st + 1) # newstk"] exI [of _ st'] conjI)
    show "copyCels ss (c # rest) dcs dstk st = Inr (dcs @ c' # new, dstk @ Some (lim st + 1) # newstk, st')"
      using step r by simp
    show "lim st \<le> lim st'" using lim' l2 by simp
    show "\<forall>a<lim st. images st' a = images st a" using frame old l2 by simp
    show "stock_below (dstk @ Some (lim st + 1) # newstk) (lim st')" using below' by simp
    show "\<forall>a. Some a \<in> set (Some (lim st + 1) # newstk) \<longrightarrow> lim st \<le> a"
      using fresh_stk l2 by auto
    show "cel_addr ` set (c' # new) \<subseteq> {lim st..<lim st'}"
      using fresh_cel lim' l2 by (auto simp: c'_def)
    show "\<forall>c\<in>set (c' # new). cel_image c < length (dstk @ Some (lim st + 1) # newstk)"
      using within by (auto simp: c'_def)
    show "map (cel_content (dstk @ Some (lim st + 1) # newstk) (images st')) (c' # new)
            = map (cel_content ss (images st)) (c # rest)"
      using c'_content content rest_content by simp
  qed
qed

lemma cel_content_frame:
  assumes "Stock_getImage ss (cel_image c) = Some a" "a < lm" "\<forall>a<lm. I2 a = I1 a"
  shows "cel_content ss I2 c = cel_content ss I1 c"
  using assms by (simp add: cel_content_def)

lemma layer_ok_folder:
  "layer_ok ss st (LayerFolder a n ls) \<longleftrightarrow> (\<forall>l \<in> set ls. layer_ok ss st l)"
  by (auto simp: layer_ok_def cels_ok_def)

lemma layer_content_frame:
  assumes "layer_ok ss st L" "\<forall>a<lim st. I2 a = images st a"
  shows "layer_content ss I2 L = layer_content ss (images st) L"
  using assms(1)
proof (induction L)
  case (LayerImage a n cs)
  have "map (cel_content ss I2) cs = map (cel_content ss (images st)) cs"
  proof (rule map_cong [OF refl])
    fix c assume "c \<in> set cs"
    with LayerImage obtain b where "Stock_getImage ss (cel_image c) = Some b" "b < lim st"
      by (auto simp: layer_ok_def cels_ok_def)
    then show "cel_content ss I2 c = cel_content ss (images st) c"
      using assms(2) by (rule cel_content_frame)
  qed
  then show ?case by simp
next
  case (LayerFolder a n ls)
  then show ?case by (simp add: layer_ok_folder)
qed

lemma layer_ok_mono:
  assumes "layer_ok ss st L" "lim st \<le> lim st'" "\<forall>a<lim st. images st' a = images st a"
  shows "layer_ok ss st' L"
  unfolding layer_ok_def cels_ok_def
proof
  fix c assume "c \<in> set (layer_cels L)"
  with assms(1) obtain b where
    b: "Stock_getImage ss (cel_image c) = Some b" "b < lim st" "images st b \<noteq> None"
    by (auto simp: layer_ok_def cels_ok_def)
  with assms(2,3) have "b < lim st'" "images st' b \<noteq> None" by auto
  with b(1) show "\<exists>a. Stock_getImage ss (cel_image c) = Some a \<and> a < lim st' \<and> images st' a \<noteq> None"
    by blast
qed

lemma store_step_trans:
  assumes "store_step st dstk n1 st1" "store_step st1 (dstk @ n1) n2 st2"
  shows "store_step st dstk (n1 @ n2) st2"
  using assms by (auto simp: store_step_def)

lemma take_out_fresh:
  "Layer_addr n \<notin> Layer_addr ` set ls \<Longrightarrow> take_out (Layer_addr n) (ls @ [n]) = ls"
  by (induction ls) auto

lemma put_behind_last:
  "distinct (map Layer_addr ls) \<Longrightarrow> ls \<noteq> [] \<Longrightarrow> put_behind (Layer_addr (last ls)) n ls = ls @ [n]"
  by (induction ls) auto

lemma stackLayer_append:
  assumes "distinct (map Layer_addr ls)" "Layer_addr n \<notin> Layer_addr ` set ls"
  shows "stackLayer (addLayer ls n) n (getLastLayer ls) = ls @ [n]"
  using assms
  by (simp add: stackLayer_def addLayer_def getLastLayer_def take_out_fresh put_behind_last)

lemma copyChildren_Cons:
  "copyChildren ss (child # rest) dls dstk st =
     (case copyLayerContent ss child (empty_like child (lim st)) dstk (st\<lparr>lim := lim st + 1\<rparr>) of
        Inl e \<Rightarrow> Inl e
      | Inr (newLayer, dstk', st2) \<Rightarrow>
          copyChildren ss rest (stackLayer (addLayer dls newLayer) newLayer (getLastLayer dls)) dstk' st2)"
  by (simp add: alloc_def empty_like_def Let_def split: sum.splits)

lemma copyChildren_correct:
  assumes IH: "\<And>l. l \<in> set sls \<Longrightarrow> copies_layer ss l"
    and ok: "\<forall>l \<in> set sls. layer_ok ss st l"
    and below: "stock_below dstk (lim st)"
    and dist: "distinct (map Layer_addr dls)"
    and old: "\<forall>l \<in> set dls. Layer_addr l < lim st"
  shows "\<exists>new newstk st'.
           copyChildren ss sls dls dstk st = Inr (dls @ new, dstk @ newstk, st') \<and>
           store_step st dstk newstk st' \<and>
           (\<Union>l \<in> set new. layer_addrs l) \<subseteq> {lim st..<lim st'} \<and>
           (\<forall>l \<in> set new. \<forall>c \<in> set (layer_cels l). cel_image c < length (dstk @ newstk)) \<and>
           map (layer_content (dstk @ newstk) (images st')) new = map (layer_content ss (images st)) sls"
  using assms
proof (induction sls arbitrary: dls dstk st)
  case Nil
  show ?case
    using Nil.prems(3) by (intro exI [of _ "[]"] exI [of _ st]) (simp add: store_step_def)
next
  case (Cons child rest)
  define st1 where "st1 = st\<lparr>lim := lim st + 1\<rparr>"
  have l1: "lim st1 = lim st + 1" and i1: "images st1 = images st" by (simp_all add: st1_def)
  have ok_child: "layer_ok ss st child" and ok_rest: "\<forall>l \<in> set rest. layer_ok ss st l"
    using Cons.prems(2) by simp_all
  have ok1: "layer_ok ss st1 child"
    using ok_child by (rule layer_ok_mono) (simp_all add: l1 i1)
  have below1: "stock_below dstk (lim st1)"
    using Cons.prems(3) by (auto simp: stock_below_def l1)
  have "copies_layer ss child" by (rule Cons.prems(1)) simp
  with ok1 below1 obtain D' n1 st2 where
    c: "copyLayerContent ss child (empty_like child (lim st)) dstk st1 = Inr (D', dstk @ n1, st2)"
    and s1: "store_step st1 dstk n1 st2"
    and cp: "copied_layer ss st1 child (lim st) (dstk @ n1) st2 D'"
    unfolding copies_layer_def by blast
  have addr: "Layer_addr D' = lim st" using cp by (simp add: copied_layer_def)
  have lim12: "lim st1 \<le> lim st2" and frame12: "\<forall>a<lim st1. images st2 a = images st1 a"
    and below2: "stock_below (dstk @ n1) (lim st2)"
    using s1 by (simp_all add: store_step_def)
  have fresh: "Layer_addr D' \<notin> Layer_addr ` set dls"
    using Cons.prems(5) addr by auto
  have stack: "stackLayer (addLayer dls D') D' (getLastLayer dls) = dls @ [D']"
    using Cons.prems(4) fresh by (rule stackLayer_append)
  have step: "copyChildren ss (child # rest) dls dstk st = copyChildren ss rest (dls @ [D']) (dstk @ n1) st2"
    using c stack unfolding copyChildren_Cons st1_def by simp
  have ok2: "\<forall>l \<in> set rest. layer_ok ss st2 l"
  proof
    fix l assume "l \<in> set rest"
    with ok_rest have "layer_ok ss st l" by simp
    then show "layer_ok ss st2 l"
      using lim12 frame12 by (intro layer_ok_mono [of ss st l st2]) (simp_all add: l1 i1)
  qed
  have dist2: "distinct (map Layer_addr (dls @ [D']))"
    using Cons.prems(4) fresh by simp
  have old2: "\<forall>l \<in> set (dls @ [D']). Layer_addr l < lim st2"
    using Cons.prems(5) addr lim12 l1 by auto
  have IH': "\<And>l. l \<in> set rest \<Longrightarrow> copies_layer ss l" using Cons.prems(1) by simp
  from Cons.IH [OF IH' ok2 below2 dist2 old2] obtain new n2 st' where
    r: "copyChildren ss rest (dls @ [D']) (dstk @ n1) st2 = Inr ((dls @ [D']) @ new, (dstk @ n1) @ n2, st')"
    and s2: "store_step st2 (dstk @ n1) n2 st'"
    and fr: "(\<Union>l \<in> set new. layer_addrs l) \<subseteq> {lim st2..<lim st'}"
    and wi: "\<forall>l \<in> set new. \<forall>c \<in> set (layer_cels l). cel_image c < length ((dstk @ n1) @ n2)"
    and co: "map (layer_content ((dstk @ n1) @ n2) (images st')) new = map (layer_content ss (images st2)) rest"
    by blast
  have lim2': "lim st2 \<le> lim st'" and frame2': "\<forall>a<lim st2. images st' a = images st2 a"
    using s2 by (simp_all add: store_step_def)
  have s01: "store_step st dstk n1 st2"
    using s1 by (auto simp: store_step_def l1 i1)
  have D'_content: "layer_content ((dstk @ n1) @ n2) (images st') D' = layer_content ss (images st) child"
  proof -
    have "layer_content ((dstk @ n1) @ n2) (images st') D' = layer_content (dstk @ n1) (images st2) D'"
      using cp below2 frame2' by (intro layer_content_extend [where lm = "lim st2"]) (simp_all add: copied_layer_def)
    also have "\<dots> = layer_content ss (images st) child"
      using cp by (simp add: copied_layer_def i1)
    finally show ?thesis .
  qed
  have rest_content: "map (layer_content ss (images st2)) rest = map (layer_content ss (images st)) rest"
  proof (rule map_cong [OF refl])
    fix l assume "l \<in> set rest"
    with ok_rest have "layer_ok ss st l" by simp
    then show "layer_content ss (images st2) l = layer_content ss (images st) l"
      using frame12 by (intro layer_content_frame) (simp_all add: l1 i1)
  qed
  show ?case
  proof (intro exI [of _ "D' # new"] exI [of _ "n1 @ n2"] exI [of _ st'] conjI)
    show "copyChildren ss (child # rest) dls dstk st = Inr (dls @ D' # new, dstk @ n1 @ n2, st')"
      using step r by simp
    show "store_step st dstk (n1 @ n2) st'"
      using s01 s2 by (rule store_step_trans)
    show "(\<Union>l \<in> set (D' # new). layer_addrs l) \<subseteq> {lim st..<lim st'}"
      using fr cp lim12 lim2' l1 by (auto simp: copied_layer_def)
    show "\<forall>l \<in> set (D' # new). \<forall>c \<in> set (layer_cels l). cel_image c < length (dstk @ n1 @ n2)"
      using wi cp by (auto simp: copied_layer_def)
    show "map (layer_content (dstk @ n1 @ n2) (images st')) (D' # new) = map (layer_content ss (images st)) (child # rest)"
      using D'_content co rest_content by simp
  qed
qed

lemma copies_layer_all: "copies_layer ss L"
proof (induction L)
  case (LayerImage sa sn scs)
  show ?case
    unfolding copies_layer_def
  proof (intro allI impI)
    fix a dstk st
    assume ok: "layer_ok ss st (LayerImage sa sn scs)" and below: "stock_below dstk (lim st)"
    from ok have "cels_ok ss st scs" by (simp add: layer_ok_def)
    from copyCels_correct [OF this below, of "[]"] obtain new newstk st' where
      r: "copyCels ss scs [] dstk st = Inr ([] @ new, dstk @ newstk, st')"
      and p: "lim st \<le> lim st'" "\<forall>a<lim st. images st' a = images st a"
        "stock_below (dstk @ newstk) (lim st')" "\<forall>a. Some a \<in> set newstk \<longrightarrow> lim st \<le> a"
        "cel_addr ` set new \<subseteq> {lim st..<lim st'}"
        "\<forall>c\<in>set new. cel_image c < length (dstk @ newstk)"
        "map (cel_content (dstk @ newstk) (images st')) new = map (cel_content ss (images st)) scs"
      by blast
    show "\<exists>D' newstk st'.
            copyLayerContent ss (LayerImage sa sn scs) (empty_like (LayerImage sa sn scs) a) dstk st
              = Inr (D', dstk @ newstk, st') \<and>
            store_step st dstk newstk st' \<and>
            copied_layer ss st (LayerImage sa sn scs) a (dstk @ newstk) st' D'"
      using r p
      by (intro exI [of _ "LayerImage a sn new"] exI [of _ newstk] exI [of _ st'])
         (auto simp: empty_like_def store_step_def copied_layer_def)
  qed
next
  case (LayerFolder sa sn sls)
  show ?case
    unfolding copies_layer_def
  proof (intro allI impI)
    fix a dstk st
    assume ok: "layer_ok ss st (LayerFolder sa sn sls)" and below: "stock_below dstk (lim st)"
    from ok have oks: "\<forall>l \<in> set sls. layer_ok ss st l" by (simp add: layer_ok_folder)
    from copyChildren_correct [OF LayerFolder.IH oks below, of "[]"] obtain new newstk st' where
      r: "copyChildren ss sls [] dstk st = Inr ([] @ new, dstk @ newstk, st')"
      and p: "store_step st dstk newstk st'"
        "(\<Union>l \<in> set new. layer_addrs l) \<subseteq> {lim st..<lim st'}"
        "\<forall>l \<in> set new. \<forall>c \<in> set (layer_cels l). cel_image c < length (dstk @ newstk)"
        "map (layer_content (dstk @ newstk) (images st')) new = map (layer_content ss (images st)) sls"
      by auto
    show "\<exists>D' newstk st'.
            copyLayerContent ss (LayerFolder sa sn sls) (empty_like (LayerFolder sa sn sls) a) dstk st
              = Inr (D', dstk @ newstk, st') \<and>
            store_step st dstk newstk st' \<and>
            copied_layer ss st (LayerFolder sa sn sls) a (dstk @ newstk) st' D'"
      using r p
      by (intro exI [of _ "LayerFolder a sn new"] exI [of _ newstk] exI [of _ st'])
         (auto simp: empty_like_def copied_layer_def)
  qed
qed

lemma count_layers_content: "count_value (layer_content stk imgs L) = count_layers L"
  by (induction L) (simp_all add: comp_def cong: map_cong)

lemma fold_update_nth:
  "j < length l \<Longrightarrow> fold (\<lambda>i l. l[i := g i]) js l ! j = (if j \<in> set js then g j else l ! j)"
  by (induction js arbitrary: l) (auto simp: nth_list_update)

lemma length_fold_update: "length (fold (\<lambda>i l. l[i := g i]) js l) = length l"
  by (induction js arbitrary: l) auto

lemma copyFrameDurations_eq:
  "copyFrameDurations src js sc =
     sc\<lparr>frlens := fold (\<lambda>i l. l[i := getFrameDuration src i]) js (frlens sc)\<rparr>"
  by (induction js arbitrary: sc) (simp_all add: setFrameDuration_def)

lemma copy_durations:
  assumes "length (frlens src) = n" "length l = n"
  shows "fold (\<lambda>i l. l[i := getFrameDuration src i]) [0..<n] l = frlens src"
proof (rule nth_equalityI)
  show "length (fold (\<lambda>i l. l[i := getFrameDuration src i]) [0..<n] l) = length (frlens src)"
    using assms by (simp add: length_fold_update)
next
  fix j assume "j < length (fold (\<lambda>i l. l[i := getFrameDuration src i]) [0..<n] l)"
  then have j: "j < n" using assms by (simp add: length_fold_update)
  then show "fold (\<lambda>i l. l[i := getFrameDuration src i]) [0..<n] l ! j = frlens src ! j"
    using assms by (simp add: fold_update_nth getFrameDuration_def)
qed

lemma setPalette_behind:
  "\<forall>q \<in> set D. pal_frame q < pal_frame p \<Longrightarrow>
   setPalette p D st = (D @ [p\<lparr>pal_addr := lim st\<rparr>], st\<lparr>lim := lim st + 1\<rparr>)"
  by (induction D) (simp_all add: alloc_def)

lemma copyPalettes_behind:
  assumes "sorted_wrt (<) (map pal_frame ps)" "\<forall>q \<in> set D. \<forall>p \<in> set ps. pal_frame q < pal_frame p"
  shows "\<exists>new st'. copyPalettes ps D st = (D @ new, st') \<and>
           map pal_content new = map pal_content ps \<and>
           pal_addr ` set new \<subseteq> {lim st..<lim st'} \<and> lim st \<le> lim st' \<and> images st' = images st"
  using assms
proof (induction ps arbitrary: D st)
  case Nil
  show ?case by (intro exI [of _ "[]"] exI [of _ st]) simp
next
  case (Cons p ps)
  define p' where "p' = p\<lparr>pal_addr := lim st\<rparr>"
  define st1 where "st1 = st\<lparr>lim := lim st + 1\<rparr>"
  have sp: "setPalette p D st = (D @ [p'], st1)"
    unfolding p'_def st1_def using Cons.prems(2) by (intro setPalette_behind) simp
  have sorted: "sorted_wrt (<) (map pal_frame ps)" using Cons.prems(1) by simp
  have lt: "\<forall>q \<in> set (D @ [p']). \<forall>r \<in> set ps. pal_frame q < pal_frame r"
    using Cons.prems by (auto simp: p'_def)
  from Cons.IH [OF sorted lt, of st1] obtain new st' where
    r: "copyPalettes ps (D @ [p']) st1 = ((D @ [p']) @ new, st')"
    and c: "map pal_content new = map pal_content ps"
    and a: "pal_addr ` set new \<subseteq> {lim st1..<lim st'}" "lim st1 \<le> lim st'" "images st' = images st1"
    by blast
  have p'_content: "pal_content p' = pal_content p" by (simp add: p'_def pal_content_def)
  have p'_addr: "pal_addr p' = lim st" and l1: "lim st1 = lim st + 1" and i1: "images st1 = images st"
    by (simp_all add: p'_def st1_def)
  show ?case
    using sp r c a p'_content p'_addr l1 i1
    by (intro exI [of _ "p' # new"] exI [of _ st']) auto
qed

lemma copyPalettes_new_sprite:
  assumes "palettes_ok ps" "pal_frame d0 = 0"
  shows "\<exists>pals st'. copyPalettes ps [d0] st = (pals, st') \<and>
           map pal_content pals = map pal_content ps \<and>
           pal_addr ` set pals \<subseteq> insert (pal_addr d0) {lim st..<lim st'} \<and>
           lim st \<le> lim st' \<and> images st' = images st"
proof -
  from assms(1) obtain p rest where ps: "ps = p # rest" and p0: "pal_frame p = 0"
    and sorted: "sorted_wrt (<) (map pal_frame rest)" and gt: "\<forall>r \<in> set rest. pal_frame p < pal_frame r"
    by (cases ps) (auto simp: palettes_ok_def)
  define d1 where "d1 = d0\<lparr>pal_colors := pal_colors p\<rparr>"
  have first: "setPalette p [d0] st = ([d1], st)"
    using p0 assms(2) by (simp add: d1_def)
  have lt: "\<forall>q \<in> set [d1]. \<forall>r \<in> set rest. pal_frame q < pal_frame r"
    using gt p0 assms(2) by (simp add: d1_def)
  from copyPalettes_behind [OF sorted lt, of st] obtain new st' where
    r: "copyPalettes rest [d1] st = ([d1] @ new, st')"
    and c: "map pal_content new = map pal_content rest"
    and a: "pal_addr ` set new \<subseteq> {lim st..<lim st'}" "lim st \<le> lim st'" "images st' = images st"
    by blast
  have d1_content: "pal_content d1 = pal_content p" and d1_addr: "pal_addr d1 = pal_addr d0"
    using p0 assms(2) by (simp_all add: d1_def pal_content_def)
  show ?thesis
    using first r c a d1_content d1_addr
    by (intro exI [of _ "d1 # new"] exI [of _ st']) (auto simp: ps)
qed

lemma getPalette_first:
  assumes "palettes_ok (palettes spr)"
  shows "getPalette spr 0 = Some (hd (palettes spr))"
proof -
  from assms obtain p rest where ps: "palettes spr = p # rest" and p0: "pal_frame p = 0"
    and gt: "\<forall>r \<in> set rest. pal_frame p < pal_frame r"
    by (cases "palettes spr") (auto simp: palettes_ok_def)
  have "filter (\<lambda>q. pal_frame q \<le> 0) rest = []"
    using gt p0 by (auto simp: filter_empty_conv)
  then show ?thesis by (simp add: getPalette_def ps p0)
qed

lemma Mask_copy_correct:
  assumes "mask_ok m st"
  shows "\<exists>m' st'. Mask_copy m st = Inr (m', st') \<and>
           mask_bounds m' = mask_bounds m \<and>
           mask_content (images st') m' = mask_content (images st) m \<and>
           mask_ok m' st' \<and>
           mask_addrs m' \<subseteq> {lim st..<lim st'} \<and> lim st \<le> lim st' \<and>
           (\<forall>a<lim st. images st' a = images st a)"
proof (cases "mask_bitmap m")
  case None
  then show ?thesis
    by (intro exI [of _ "m\<lparr>mask_addr := lim st\<rparr>"] exI [of _ "st\<lparr>lim := lim st + 1\<rparr>"])
       (simp add: Mask_copy_def alloc_def mask_content_def mask_ok_def mask_addrs_def)
next
  case (Some b)
  with assms obtain im where im: "images st b = Some im" by (auto simp: mask_ok_def)
  show ?thesis
    using Some im
    by (intro exI [of _ "m\<lparr>mask_addr := lim st, mask_bitmap := Some (lim st + 1)\<rparr>"]
              exI [of _ "st\<lparr>lim := lim st + 2, images := (images st)(lim st + 1 \<mapsto> im)\<rparr>"])
       (simp add: Mask_copy_def alloc_def Image_createCopy_def mask_content_def mask_ok_def mask_addrs_def)
qed

lemma generateMaskBoundaries_current:
  assumes "m_mask d = Some m" "mask_ok m st"
  shows "\<exists>bd. generateMaskBoundaries fmb None d st = Inr (d\<lparr>m_bound := bd\<rparr>)"
proof -
  have vis: "\<And>bd. isMaskVisible (d\<lparr>m_bound := bd\<rparr>) = isMaskVisible d"
    by (simp add: isMaskVisible_def)
  have same: "d = d\<lparr>m_bound := m_bound d\<rparr>" by simp
  show ?thesis
  proof (cases "isMaskVisible d")
    case False
    show ?thesis
    proof (cases "seg (m_bound d)")
      case None
      with False have "generateMaskBoundaries fmb None d st = Inr d"
        by (simp add: generateMaskBoundaries_def)
      with same show ?thesis by metis
    next
      case (Some sg)
      with False have "generateMaskBoundaries fmb None d st = Inr (d\<lparr>m_bound := \<lparr>nseg = 0, seg = None\<rparr>\<rparr>)"
        by (simp add: generateMaskBoundaries_def vis)
      then show ?thesis by blast
    qed
  next
    case True
    then have ne: "\<not> isEmpty m" using assms(1) by (simp add: isMaskVisible_def)
    then obtain b where b: "mask_bitmap m = Some b" by (auto simp: isEmpty_def)
    with assms(2) obtain im where im: "images st b = Some im" by (auto simp: mask_ok_def)
    have "generateMaskBoundaries fmb None d st =
            Inr (d\<lparr>m_bound := \<lparr>nseg = int (length (fmb im)),
                                 seg = Some (map (shift_seg (mask_bounds m)) (fmb im))\<rparr>\<rparr>)"
      using True assms(1) ne b im
      by (cases "seg (m_bound d)") (simp_all add: generateMaskBoundaries_def vis ASSERT_def Let_def)
    then show ?thesis by blast
  qed
qed

text \<open>
  C9 (as the code has it). Take a source document that is well formed in its store: it has
  a sprite and a mask, the sprite's root layer is a folder, every cel's index finds a live
  image in the stock, there is one duration for each frame, the palettes are ordered by
  frame and begin at frame 0, the mask's bitmap is live, and every object of the document
  was allocated in the store. Then \<^verbatim>\<open>duplicate(DuplicateExactCopy)\<close> returns a document
  with as many layers and frames, whose frame durations, palettes, layer tree (names,
  cels, and the pixel data of each cel), selection mask and mask visibility equal the
  source's by value; every object and buffer of the copy is newly allocated, so none is
  shared with the source, the source's buffers are as they were, and a write to any
  buffer of the copy leaves the source's layers unchanged; and the copy's lock is free.
  The transformation is not copied: \<^verbatim>\<open>setMask\<close> resets it to the transformation of the
  mask's bounds.
\<close>

theorem duplicate_exact_copy:
  assumes sprite: "m_sprite d = Some s" and mask: "m_mask d = Some m"
    and root: "folder s = LayerFolder ra rn rls"
    and cels: "layer_ok (stock s) st (folder s)"
    and durations: "length (frlens s) = totalFrames s"
    and pals: "palettes_ok (palettes s)"
    and bitmap: "mask_ok m st"
    and allocated: "document_addrs d \<subseteq> {..<lim st}"
  shows "\<exists>copy s' m' st'.
      duplicate find_mask_boundary flattenLayers DuplicateExactCopy d st = Inr (copy, st')
      \<and> m_sprite copy = Some s' \<and> m_mask copy = Some m'
      \<and> pixelFormat s' = pixelFormat s \<and> spr_width s' = spr_width s \<and> spr_height s' = spr_height s
      \<and> count_layers (folder s') = count_layers (folder s)
      \<and> totalFrames s' = totalFrames s
      \<and> frlens s' = frlens s
      \<and> map pal_content (palettes s') = map pal_content (palettes s)
      \<and> layer_content (stock s') (images st') (folder s') = layer_content (stock s) (images st) (folder s)
      \<and> mask_content (images st') m' = mask_content (images st) m
      \<and> m_maskVisible copy = m_maskVisible d
      \<and> m_transformation copy = Transformation_of (mask_bounds m)
      \<and> document_addrs copy \<subseteq> {lim st..<lim st'}
      \<and> document_addrs copy \<inter> document_addrs d = {}
      \<and> (\<forall>a<lim st. images st' a = images st a)
      \<and> (\<forall>a \<in> document_addrs copy. \<forall>v.
            layer_content (stock s) ((images st')(a \<mapsto> v)) (folder s)
              = layer_content (stock s) (images st) (folder s)
            \<and> mask_content ((images st')(a \<mapsto> v)) m = mask_content (images st) m)
      \<and> \<not> m_write_lock copy \<and> m_read_locks copy = 0"
proof -
  define d0 where "d0 = \<lparr>pal_addr = lim st + 2, pal_frame = 0,
                          pal_colors = replicate (length (pal_colors (hd (palettes s)))) 0\<rparr>"
  define sc where "sc = \<lparr>spr_addr = lim st, pixelFormat = pixelFormat s, spr_width = spr_width s,
      spr_height = spr_height s, totalFrames = 1, frlens = [100], palettes = [d0],
      folder = LayerFolder (lim st + 1) [] [], stock = []\<rparr>"
  define st1 where "st1 = st\<lparr>lim := lim st + 3\<rparr>"
  have ctor: "Sprite_ctor (pixelFormat s) (spr_width s) (spr_height s)
                (length (pal_colors (hd (palettes s)))) st = (sc, st1)"
    by (simp add: Sprite_ctor_def alloc_def sc_def st1_def d0_def)
  define dc where "dc = \<lparr>m_write_lock = False, m_read_locks = 0,
           m_sprite = Some sc, m_context = None,
           m_filename = ''Sprite'', m_associated_to_file = False,
           m_bound = \<lparr>nseg = 0, seg = None\<rparr>,
           m_extraCel = None, m_extraImage = None,
           m_mask = Some \<lparr>mask_addr = lim st + 3,
                           mask_bounds = \<lparr>rect_x = 0, rect_y = 0, rect_w = 0, rect_h = 0\<rparr>,
                           mask_bitmap = None\<rparr>,
           m_maskVisible = True,
           m_transformation = Transformation_default\<rparr>"
  define st2 where "st2 = st\<lparr>lim := lim st + 4\<rparr>"
  have dctor: "Document_ctor (Some sc) st1 = (dc, st2)"
    by (simp add: Document_ctor_def Mask_ctor_def alloc_def dc_def st1_def st2_def)
  have l2: "lim st2 = lim st + 4" and i2: "images st2 = images st" by (simp_all add: st2_def)
  have gp: "getPalette s 0 = Some (hd (palettes s))" using pals by (rule getPalette_first)
  have frl: "copyFrameDurations s [0..<totalFrames s] (setTotalFrames (totalFrames s) sc)
               = sc\<lparr>totalFrames := totalFrames s, frlens := frlens s\<rparr>"
    using copy_durations [OF durations, of "take (totalFrames s) [100] @ replicate (totalFrames s - 1) 100"]
    by (cases "totalFrames s") (simp_all add: copyFrameDurations_eq setTotalFrames_def sc_def)
  from copyPalettes_new_sprite [OF pals, of d0 st2] obtain ps st3 where
    cp: "copyPalettes (palettes s) [d0] st2 = (ps, st3)"
    and ps_content: "map pal_content ps = map pal_content (palettes s)"
    and ps_addrs: "pal_addr ` set ps \<subseteq> insert (lim st + 2) {lim st2..<lim st3}"
    and l3: "lim st2 \<le> lim st3" and i3: "images st3 = images st"
    by (auto simp: d0_def i2)
  have ok3: "layer_ok (stock s) st3 (folder s)"
    using cels by (rule layer_ok_mono) (use l2 l3 i3 in simp_all)
  have root_like: "empty_like (folder s) (lim st + 1) = LayerFolder (lim st + 1) [] []"
    by (simp add: root empty_like_def)
  have "stock_below [] (lim st3)" by (simp add: stock_below_def)
  with copies_layer_all [of "stock s" "folder s"] ok3 obtain F' newstk st4 where
    cl: "copyLayerContent (stock s) (folder s) (LayerFolder (lim st + 1) [] []) [] st3 = Inr (F', newstk, st4)"
    and s34: "store_step st3 [] newstk st4"
    and cpd: "copied_layer (stock s) st3 (folder s) (lim st + 1) newstk st4 F'"
    unfolding copies_layer_def root_like [symmetric] by fastforce
  have l4: "lim st3 \<le> lim st4" and f4: "\<forall>a<lim st3. images st4 a = images st3 a"
    and below4: "stock_below newstk (lim st4)" and fresh4: "\<forall>a. Some a \<in> set newstk \<longrightarrow> lim st3 \<le> a"
    using s34 by (simp_all add: store_step_def)
  define sc4 where "sc4 = sc\<lparr>totalFrames := totalFrames s, frlens := frlens s, palettes := ps,
                               folder := F', stock := newstk\<rparr>"
  have mask_below: "\<forall>b. mask_bitmap m = Some b \<longrightarrow> b < lim st"
    using allocated mask by (auto simp: document_addrs_def mask_addrs_def)
  have ok_m4: "mask_ok m st4"
    using bitmap mask_below f4 l2 l3 i3 by (auto simp: mask_ok_def split: option.splits)
  from Mask_copy_correct [OF ok_m4] obtain m' st5 where
    mc: "Mask_copy m st4 = Inr (m', st5)"
    and mb: "mask_bounds m' = mask_bounds m"
    and mcontent: "mask_content (images st5) m' = mask_content (images st4) m"
    and ok_m5: "mask_ok m' st5"
    and maddrs: "mask_addrs m' \<subseteq> {lim st4..<lim st5}"
    and l5: "lim st4 \<le> lim st5" and f5: "\<forall>a<lim st4. images st5 a = images st4 a"
    by blast
  define d1 where "d1 = dc\<lparr>m_sprite := Some sc4, m_mask := Some m',
                             m_transformation := Transformation_of (mask_bounds m'),
                             m_maskVisible := m_maskVisible d\<rparr>"
  have sm: "setMask m (dc\<lparr>m_sprite := Some sc4\<rparr>) st4
              = Inr (dc\<lparr>m_sprite := Some sc4, m_mask := Some m', m_maskVisible := True,
                        m_transformation := Transformation_of (mask_bounds m')\<rparr>, st5)"
    by (simp add: setMask_def mc resetTransformation_def)
  have "m_mask d1 = Some m'" by (simp add: d1_def)
  from generateMaskBoundaries_current [OF this ok_m5, of find_mask_boundary] obtain bd where
    gmb: "generateMaskBoundaries find_mask_boundary None d1 st5 = Inr (d1\<lparr>m_bound := bd\<rparr>)"
    by blast
  have sc_sel: "palettes sc = [d0]" "folder sc = LayerFolder (Suc (lim st)) [] []" "stock sc = []"
    by (simp_all add: sc_def)
  have cl': "copyLayerContent (stock s) (folder s) (LayerFolder (Suc (lim st)) [] []) [] st3 = Inr (F', newstk, st4)"
    using cl by simp
  have result: "duplicate find_mask_boundary flattenLayers DuplicateExactCopy d st
                  = Inr (d1\<lparr>m_bound := bd\<rparr>, st5)"
    using gmb [unfolded d1_def sc4_def]
    by (simp add: duplicate_def sprite mask gp ctor dctor frl sc_sel cp cl' sm [unfolded sc4_def]
          sc4_def d1_def)
  have lims: "lim st + 4 \<le> lim st3" "lim st3 \<le> lim st4" "lim st4 \<le> lim st5"
    using l2 l3 l4 l5 by simp_all
  have frame: "\<forall>a<lim st. images st5 a = images st a"
    using f5 f4 i3 lims by simp
  have sel: "m_sprite (d1\<lparr>m_bound := bd\<rparr>) = Some sc4" "m_mask (d1\<lparr>m_bound := bd\<rparr>) = Some m'"
    "m_maskVisible (d1\<lparr>m_bound := bd\<rparr>) = m_maskVisible d"
    "m_transformation (d1\<lparr>m_bound := bd\<rparr>) = Transformation_of (mask_bounds m)"
    "\<not> m_write_lock (d1\<lparr>m_bound := bd\<rparr>)" "m_read_locks (d1\<lparr>m_bound := bd\<rparr>) = 0"
    by (simp_all add: d1_def dc_def mb)
  have sc4_sel: "totalFrames sc4 = totalFrames s" "frlens sc4 = frlens s" "palettes sc4 = ps"
    "folder sc4 = F'" "stock sc4 = newstk" "spr_addr sc4 = lim st"
    "pixelFormat sc4 = pixelFormat s" "spr_width sc4 = spr_width s" "spr_height sc4 = spr_height s"
    by (simp_all add: sc4_def sc_def)
  have content4: "layer_content newstk (images st4) F' = layer_content (stock s) (images st) (folder s)"
    using cpd by (simp add: copied_layer_def i3)
  have "layer_content (newstk @ []) (images st5) F' = layer_content newstk (images st4) F'"
    using cpd below4 f5 by (intro layer_content_extend [where lm = "lim st4"]) (simp_all add: copied_layer_def)
  with content4 have content: "layer_content (stock sc4) (images st5) (folder sc4)
                                 = layer_content (stock s) (images st) (folder s)"
    by (simp add: sc4_sel)
  have count: "count_layers (folder sc4) = count_layers (folder s)"
    using content count_layers_content [of "stock sc4" "images st5" "folder sc4"]
      count_layers_content [of "stock s" "images st" "folder s"] by simp
  have "mask_content (images st4) m = mask_content (images st) m"
    using mask_below f4 i3 lims by (cases "mask_bitmap m") (simp_all add: mask_content_def)
  with mcontent have mask_eq: "mask_content (images st5) m' = mask_content (images st) m" by simp
  have stock_fresh: "stock_addrs newstk \<subseteq> {lim st3..<lim st4}"
    using below4 fresh4 by (auto simp: stock_addrs_def stock_below_def)
  have layer_fresh: "layer_addrs F' \<subseteq> insert (lim st + 1) {lim st3..<lim st4}"
    using cpd by (simp add: copied_layer_def)
  have addrs: "document_addrs (d1\<lparr>m_bound := bd\<rparr>) \<subseteq> {lim st..<lim st5}"
  proof -
    have "sprite_addrs sc4 \<subseteq> {lim st..<lim st5}"
      using stock_fresh layer_fresh ps_addrs lims l2
      by (auto simp: sprite_addrs_def sc4_sel)
    moreover have "mask_addrs m' \<subseteq> {lim st..<lim st5}"
      using maddrs lims by auto
    ultimately show ?thesis by (simp add: document_addrs_def sel)
  qed
  have disjoint: "document_addrs (d1\<lparr>m_bound := bd\<rparr>) \<inter> document_addrs d = {}"
    using addrs allocated by fastforce
  have untouched: "\<forall>a \<in> document_addrs (d1\<lparr>m_bound := bd\<rparr>). \<forall>v.
            layer_content (stock s) ((images st5)(a \<mapsto> v)) (folder s)
              = layer_content (stock s) (images st) (folder s)
            \<and> mask_content ((images st5)(a \<mapsto> v)) m = mask_content (images st) m"
  proof (intro ballI allI conjI)
    fix a v assume "a \<in> document_addrs (d1\<lparr>m_bound := bd\<rparr>)"
    with addrs have "lim st \<le> a" by auto
    with frame have old: "\<forall>b<lim st. ((images st5)(a \<mapsto> v)) b = images st b" by simp
    with cels show "layer_content (stock s) ((images st5)(a \<mapsto> v)) (folder s)
              = layer_content (stock s) (images st) (folder s)"
      by (rule layer_content_frame)
    show "mask_content ((images st5)(a \<mapsto> v)) m = mask_content (images st) m"
      using mask_below old by (cases "mask_bitmap m") (simp_all add: mask_content_def)
  qed
  show ?thesis
    using result sel sc4_sel count content ps_content mask_eq addrs disjoint frame untouched
    by (intro exI [of _ "d1\<lparr>m_bound := bd\<rparr>"] exI [of _ sc4] exI [of _ m'] exI [of _ st5]) simp
qed

theorem duplicate_exact_copy_witness:
  "m_sprite example_document = Some example_sprite
   \<and> m_mask example_document = Some example_mask
   \<and> folder example_sprite = LayerFolder 4 ''Root''
                 [LayerImage 5 ''Background''
                    [\<lparr>cel_addr = 6, cel_frame = 0, cel_image = 1, cel_x = 0, cel_y = 0, cel_opacity = 255\<rparr>,
                     \<lparr>cel_addr = 7, cel_frame = 1, cel_image = 0, cel_x = 0, cel_y = 0, cel_opacity = 255\<rparr>],
                  LayerFolder 8 ''Group''
                    [LayerImage 9 ''Top''
                       [\<lparr>cel_addr = 13, cel_frame = 0, cel_image = 2, cel_x = 1, cel_y = 0, cel_opacity = 128\<rparr>]]]
   \<and> layer_ok (stock example_sprite) example_store (folder example_sprite)
   \<and> length (frlens example_sprite) = totalFrames example_sprite
   \<and> palettes_ok (palettes example_sprite)
   \<and> mask_ok example_mask example_store
   \<and> document_addrs example_document \<subseteq> {..<lim example_store}
   \<and> (\<exists>copy s' m' st'.
      duplicate no_boundary no_flatten DuplicateExactCopy example_document example_store = Inr (copy, st')
      \<and> m_sprite copy = Some s' \<and> m_mask copy = Some m'
      \<and> count_layers (folder s') = 4
      \<and> totalFrames s' = 2
      \<and> frlens s' = [100, 250]
      \<and> map pal_content (palettes s') = [(0, [7, 8, 9]), (1, [9, 8, 7])]
      \<and> layer_content (stock s') (images st') (folder s')
           = layer_content (stock example_sprite) (images example_store) (folder example_sprite)
      \<and> document_addrs copy \<inter> document_addrs example_document = {}
      \<and> \<not> m_write_lock copy \<and> m_read_locks copy = 0)"
proof -
  have h1: "m_sprite example_document = Some example_sprite"
    and h2: "m_mask example_document = Some example_mask"
    by (simp_all add: example_document_def)
  have h3: "folder example_sprite = LayerFolder 4 ''Root''
                 [LayerImage 5 ''Background''
                    [\<lparr>cel_addr = 6, cel_frame = 0, cel_image = 1, cel_x = 0, cel_y = 0, cel_opacity = 255\<rparr>,
                     \<lparr>cel_addr = 7, cel_frame = 1, cel_image = 0, cel_x = 0, cel_y = 0, cel_opacity = 255\<rparr>],
                  LayerFolder 8 ''Group''
                    [LayerImage 9 ''Top''
                       [\<lparr>cel_addr = 13, cel_frame = 0, cel_image = 2, cel_x = 1, cel_y = 0, cel_opacity = 128\<rparr>]]]"
    by (simp add: example_sprite_def)
  have h4: "layer_ok (stock example_sprite) example_store (folder example_sprite)"
    by (simp add: layer_ok_def cels_ok_def example_sprite_def example_store_def Stock_getImage_def)
  have h5: "length (frlens example_sprite) = totalFrames example_sprite"
    by (simp add: example_sprite_def)
  have h6: "palettes_ok (palettes example_sprite)"
    by (simp add: palettes_ok_def example_sprite_def)
  have h7: "mask_ok example_mask example_store"
    by (simp add: mask_ok_def example_mask_def example_store_def)
  have h8: "document_addrs example_document \<subseteq> {..<lim example_store}"
    by (auto simp: document_addrs_def sprite_addrs_def mask_addrs_def stock_addrs_def
          example_document_def example_sprite_def example_mask_def example_store_def)
  have c: "count_layers (folder example_sprite) = 4" "totalFrames example_sprite = 2"
    "frlens example_sprite = [100, 250]"
    "map pal_content (palettes example_sprite) = [(0, [7, 8, 9]), (1, [9, 8, 7])]"
    by (simp_all add: example_sprite_def pal_content_def)
  from duplicate_exact_copy [OF h1 h2 h3 h4 h5 h6 h7 h8, of no_boundary no_flatten]
  obtain copy s' m' st' where
    "duplicate no_boundary no_flatten DuplicateExactCopy example_document example_store = Inr (copy, st')"
    "m_sprite copy = Some s'" "m_mask copy = Some m'"
    "count_layers (folder s') = count_layers (folder example_sprite)"
    "totalFrames s' = totalFrames example_sprite"
    "frlens s' = frlens example_sprite"
    "map pal_content (palettes s') = map pal_content (palettes example_sprite)"
    "layer_content (stock s') (images st') (folder s')
       = layer_content (stock example_sprite) (images example_store) (folder example_sprite)"
    "document_addrs copy \<inter> document_addrs example_document = {}"
    "\<not> m_write_lock copy" "m_read_locks copy = 0"
    by blast
  with c have "\<exists>copy s' m' st'.
      duplicate no_boundary no_flatten DuplicateExactCopy example_document example_store = Inr (copy, st')
      \<and> m_sprite copy = Some s' \<and> m_mask copy = Some m'
      \<and> count_layers (folder s') = 4
      \<and> totalFrames s' = 2
      \<and> frlens s' = [100, 250]
      \<and> map pal_content (palettes s') = [(0, [7, 8, 9]), (1, [9, 8, 7])]
      \<and> layer_content (stock s') (images st') (folder s')
           = layer_content (stock example_sprite) (images example_store) (folder example_sprite)
      \<and> document_addrs copy \<inter> document_addrs example_document = {}
      \<and> \<not> m_write_lock copy \<and> m_read_locks copy = 0"
    by metis
  with h1 h2 h3 h4 h5 h6 h7 h8 show ?thesis by blast
qed

text \<open>
  The claim as the spec words it fails for the transform state: the source's selection
  has been moved, the copy's transformation is that of the mask's bounds.
\<close>

theorem duplicate_transformation_counterexample:
  "map_option m_transformation (duplicate_exact example_document example_store)
     = Some (Transformation_of \<lparr>rect_x = 0, rect_y = 0, rect_w = 1, rect_h = 1\<rparr>)
   \<and> m_transformation example_document
     = Transformation_of \<lparr>rect_x = 3, rect_y = 2, rect_w = 1, rect_h = 1\<rparr>
   \<and> Transformation_of \<lparr>rect_x = 0, rect_y = 0, rect_w = 1, rect_h = 1\<rparr>
     \<noteq> Transformation_of \<lparr>rect_x = 3, rect_y = 2, rect_w = 1, rect_h = 1\<rparr>"
  by code_simp

text \<open>
  C10 (as the code has it). The destructor looks at the context and at nothing of the
  lock: in no context it completes, whatever the reader count and the writer flag are,
  and leaves both as they were; in a context it fails at its assertion.
\<close>

theorem Document_dtor_ignores_locks:
  "Document_dtor d = (if m_context d = None then Inr (destroyExtraCel d) else Inl AssertionFailed)
   \<and> m_read_locks (destroyExtraCel d) = m_read_locks d
   \<and> m_write_lock (destroyExtraCel d) = m_write_lock d"
  by (simp add: Document_dtor_def ASSERT_def destroyExtraCel_def)

text \<open>
  The claim as the spec words it fails: a document with two read locks outstanding is
  destroyed without any failure.
\<close>

theorem Document_dtor_counterexample:
  "m_read_locks document_with_two_readers = 2
   \<and> Document_dtor document_with_two_readers = Inr document_with_two_readers
   \<and> Document_dtor document_with_two_readers \<noteq> Inl AssertionFailed"
  by (simp add: document_with_two_readers_def Document_ctor_def Mask_ctor_def alloc_def empty_store_def
        Document_dtor_def ASSERT_def destroyExtraCel_def)

end
